theory Spec2Isabelle
  imports Complex_Main "HOL-Library.Log_Nat"
begin

section \<open>The Student Grade Analyzer (lecture_3/student_grade_analyzer.py)\<close>

text \<open>
  The program keeps a list of student records in memory and talks to the user through
  \<^verbatim>\<open>input\<close> and \<^verbatim>\<open>print\<close>. The embedding makes both explicit: the lines still to be
  read from standard input are a list of strings, and what is printed is a list of
  messages. Every procedure of the source becomes a function from the state before the
  call to either the exception that escapes it or the state after it.

  Modelling conventions:
  \<^item> A Python \<^verbatim>\<open>str\<close> is a \<open>string\<close>; a \<open>char\<close> stands for the code point of the same
    number, so the model covers text over the code points 0 to 255.
  \<^item> A Python \<^verbatim>\<open>int\<close> is an \<open>int\<close>.
  \<^item> A finite Python \<^verbatim>\<open>float\<close> is the \<open>rat\<close> equal to it: every quotient is rounded to
    binary64 (round to nearest, ties to even, gradual underflow), and a quotient of
    integers beyond the range of a float raises \<^verbatim>\<open>OverflowError\<close>. The sign of a zero is
    not represented. The result of \<^verbatim>\<open>sum\<close> over floats may also be an infinity; how
    \<^verbatim>\<open>sum\<close> rounds depends on the interpreter, so the summation of floats is a parameter
    \<open>fsum\<close> of \<^verbatim>\<open>show_report\<close> and of its callers.
  \<^item> A printed line is a \<open>message\<close> that carries the values interpolated into it; the
    one-decimal formatting \<^verbatim>\<open>{avg:.1f}\<close> is not applied, the message holds the unrounded
    value.
  \<^item> \<^verbatim>\<open>KeyboardInterrupt\<close> is asynchronous and is not modelled.
\<close>

subsection \<open>Strings: \<^verbatim>\<open>str.strip\<close>, \<^verbatim>\<open>str.lower\<close>, \<^verbatim>\<open>int\<close>\<close>

text \<open>\<^verbatim>\<open>str.isspace\<close> on one character: the code points 9-13, 28-32, 133 and 160.\<close>

definition isspace :: "char \<Rightarrow> bool" where
  "isspace c =
     (let n = (of_char c :: nat)
      in (9 \<le> n \<and> n \<le> 13) \<or> (28 \<le> n \<and> n \<le> 32) \<or> n = 133 \<or> n = 160)"

text \<open>\<^verbatim>\<open>s.strip()\<close>: drop the leading and the trailing whitespace.\<close>

definition strip :: "string \<Rightarrow> string" where
  "strip s = rev (dropWhile isspace (rev (dropWhile isspace s)))"

text \<open>
  \<^verbatim>\<open>s.lower()\<close>, character by character: A-Z and the upper-case letters of Latin-1
  (192-214, 216-222) move up by 32.
\<close>

definition lower_char :: "char \<Rightarrow> char" where
  "lower_char c =
     (let n = (of_char c :: nat)
      in if (65 \<le> n \<and> n \<le> 90) \<or> (192 \<le> n \<and> n \<le> 214) \<or> (216 \<le> n \<and> n \<le> 222)
         then char_of (n + 32) else c)"

definition lower :: "string \<Rightarrow> string" where
  "lower s = map lower_char s"

text \<open>
  \<^verbatim>\<open>int(s)\<close> in base 10. The whitespace it skips at both ends is that of C (9-13 and
  32) and the Latin-1 spaces 133 and 160, not the separators 28-31. Then come an optional
  sign and decimal digits, where single underscores may separate digits. A literal of
  more than 4300 digits (the interpreter's default limit; leading zeros count,
  underscores and the sign do not) is refused. \<open>None\<close> stands for \<^verbatim>\<open>ValueError\<close>.
\<close>

definition int_space :: "char \<Rightarrow> bool" where
  "int_space c =
     (let n = (of_char c :: nat)
      in (9 \<le> n \<and> n \<le> 13) \<or> n = 32 \<or> n = 133 \<or> n = 160)"

definition is_digit :: "char \<Rightarrow> bool" where
  "is_digit c = (let n = (of_char c :: nat) in 48 \<le> n \<and> n \<le> 57)"

definition digit_val :: "char \<Rightarrow> int" where
  "digit_val c = int (of_char c) - 48"

fun parse_digits :: "bool \<Rightarrow> int \<Rightarrow> string \<Rightarrow> int option" where
  "parse_digits after_digit acc [] = (if after_digit then Some acc else None)"
| "parse_digits after_digit acc (c # cs) =
     (if is_digit c then parse_digits True (10 * acc + digit_val c) cs
      else if c = CHR ''_'' \<and> after_digit then parse_digits False acc cs
      else None)"

definition max_str_digits :: nat where
  "max_str_digits = 4300"

definition py_int :: "string \<Rightarrow> int option" where
  "py_int s =
     (case rev (dropWhile int_space (rev (dropWhile int_space s))) of
        [] \<Rightarrow> None
      | c # cs \<Rightarrow>
         (let literal = (if c = CHR ''-'' \<or> c = CHR ''+'' then cs else c # cs)
          in if max_str_digits < length (filter is_digit literal) then None
             else if c = CHR ''-'' then map_option uminus (parse_digits False 0 literal)
             else parse_digits False 0 literal))"

subsection \<open>Floats\<close>

text \<open>Rounding to the nearest integer, ties to the even one.\<close>

definition round_half_even :: "rat \<Rightarrow> int" where
  "round_half_even x =
     (let f = \<lfloor>x\<rfloor>; r = x - of_int f
      in if r < 1 / 2 then f
         else if 1 / 2 < r then f + 1
         else if even f then f else f + 1)"

text \<open>The exponent of a positive rational: the \<open>k\<close> with \<open>2 powi k \<le> x < 2 powi (k + 1)\<close>.\<close>

definition ilog2 :: "rat \<Rightarrow> int" where
  "ilog2 x =
     (let (a, b) = quotient_of x; k = bitlen a - bitlen b
      in if 2 powi k \<le> x then k else k - 1)"

text \<open>
  The binary64 number nearest to \<open>x\<close>: 53 significant bits, the exponent not below
  -1022 (below it the spacing stays \<open>2 powi - 1074\<close>). The callers test for overflow first.
\<close>

definition round_double :: "rat \<Rightarrow> rat" where
  "round_double x =
     (if x = 0 then 0
      else let e = max (ilog2 \<bar>x\<bar>) (- 1022); u = 2 powi (e - 52)
           in of_int (round_half_even (x / u)) * u)"

text \<open>
  \<open>x\<close> rounds to a magnitude beyond the largest float: it is at least halfway from the
  largest float \<open>2 ^ 1024 - 2 ^ 971\<close> to \<open>2 ^ 1024\<close>.
\<close>

definition float_overflow :: "rat \<Rightarrow> bool" where
  "float_overflow x = (2 ^ 1024 - 2 ^ 970 \<le> \<bar>x\<bar>)"

text \<open>A float that may be infinite or not a number.\<close>

datatype pyfloat = Finite rat | PosInf | NegInf | NaN

subsection \<open>Data\<close>

text \<open>\<^verbatim>\<open>class Student(TypedDict)\<close>: \<^verbatim>\<open>name: str\<close>, \<^verbatim>\<open>grades: list[int]\<close>.\<close>

record student =
  name :: string
  grades :: "int list"

text \<open>The exceptions that the modelled code can raise.\<close>

datatype py_error = EOFError | ZeroDivisionError | ValueError | OverflowError

text \<open>
  The lines the program prints. Each constructor is one \<^verbatim>\<open>print\<close> of the source (or the
  block of prints of \<^verbatim>\<open>print_menu\<close>), named after the condition it reports.
\<close>

datatype message =
    EmptyName                       \<comment> \<open>\<^verbatim>\<open>Student name cannot be empty.\<close>\<close>
  | DuplicateName string            \<comment> \<open>\<^verbatim>\<open>Student '{name}' already exists.\<close>\<close>
  | StudentAdded string             \<comment> \<open>\<^verbatim>\<open>Student '{name}' added.\<close>\<close>
  | EmptyRegistry                   \<comment> \<open>\<^verbatim>\<open>No students found. Please add a student first.\<close>\<close>
  | StudentNotFound string          \<comment> \<open>\<^verbatim>\<open>Student '{name}' not found.\<close>\<close>
  | InvalidFormat                   \<comment> \<open>\<^verbatim>\<open>Invalid input. Please enter a number.\<close>\<close>
  | OutOfRange                      \<comment> \<open>\<^verbatim>\<open>Invalid grade. Please enter a value between 0 and 100.\<close>\<close>
  | GradesUpdated string int        \<comment> \<open>\<^verbatim>\<open>Grades updated for '{name}'. ({n} grade(s) added)\<close>\<close>
  | NoStudentsToReport              \<comment> \<open>\<^verbatim>\<open>No students to report.\<close>\<close>
  | ReportHeader                    \<comment> \<open>\<^verbatim>\<open>--- Student Report ---\<close>\<close>
  | AverageNA string                \<comment> \<open>\<^verbatim>\<open>{name}'s average grade is N/A.\<close>\<close>
  | Average string rat              \<comment> \<open>\<^verbatim>\<open>{name}'s average grade is {avg:.1f}.\<close>\<close>
  | NoGradesYet                     \<comment> \<open>\<^verbatim>\<open>No grades have been added yet.\<close>\<close>
  | Rule                            \<comment> \<open>\<^verbatim>\<open>------------------------\<close>\<close>
  | RuleEnd                         \<comment> \<open>the same rule, followed by a blank line\<close>
  | MaxAverage rat                  \<comment> \<open>\<^verbatim>\<open>Max Average: {max_avg:.1f}\<close>\<close>
  | MinAverage rat                  \<comment> \<open>\<^verbatim>\<open>Min Average: {min_avg:.1f}\<close>\<close>
  | OverallAverage pyfloat          \<comment> \<open>\<^verbatim>\<open>Overall Average: {overall_avg:.1f}\<close>\<close>
  | NoStudentsFound                 \<comment> \<open>\<^verbatim>\<open>No students found.\<close>\<close>
  | NoGradesAvailable               \<comment> \<open>\<^verbatim>\<open>No grades available to determine top performer.\<close>\<close>
  | TopPerformer string rat         \<comment> \<open>\<^verbatim>\<open>The student with the highest average is {name} ...\<close>\<close>
  | Menu                            \<comment> \<open>the six lines of \<^verbatim>\<open>print_menu\<close>\<close>
  | InvalidChoiceNotANumber         \<comment> \<open>\<^verbatim>\<open>Invalid choice. Please enter a number from 1 to 5.\<close>\<close>
  | InvalidChoiceNotInMenu          \<comment> \<open>\<^verbatim>\<open>Invalid choice. Please select a number from 1 to 5.\<close>\<close>
  | ExitingProgram                  \<comment> \<open>\<^verbatim>\<open>Exiting program.\<close>\<close>

text \<open>
  The state a procedure runs in: the list \<^verbatim>\<open>students\<close>, the lines not yet read from
  standard input, and everything printed so far.
\<close>

record world =
  students :: "student list"
  stdin :: "string list"
  stdout :: "message list"

text \<open>\<^verbatim>\<open>print(...)\<close>.\<close>

definition print :: "message \<Rightarrow> world \<Rightarrow> world" where
  "print m w = w\<lparr>stdout := stdout w @ [m]\<rparr>"

text \<open>
  \<^verbatim>\<open>input(prompt)\<close>: the next line, removed from standard input; \<^verbatim>\<open>EOFError\<close> when
  the input is exhausted. The prompt text is not recorded.
\<close>

definition input :: "world \<Rightarrow> py_error + (string \<times> world)" where
  "input w =
     (case stdin w of
        [] \<Rightarrow> Inl EOFError
      | l # ls \<Rightarrow> Inr (l, w\<lparr>stdin := ls\<rparr>))"

subsection \<open>\<^verbatim>\<open>find_student\<close>\<close>

text \<open>
  \<^verbatim>\<open>next((s for s in students if s["name"].lower() == normalized), None)\<close>: the first
  record that passes the test. The argument is stripped and lowered; the stored name is
  lowered only.
\<close>

definition find_student :: "student list \<Rightarrow> string \<Rightarrow> student option" where
  "find_student sts nm =
     (let normalized = lower (strip nm)
      in List.find (\<lambda>s. lower (name s) = normalized) sts)"

text \<open>
  The value returned by \<^verbatim>\<open>find_student\<close> is a reference to a dictionary held in the
  list, and \<^verbatim>\<open>add_grades_for_student\<close> mutates it through that reference. In the model
  the reference is the position of the record in the list.
\<close>

fun first_index :: "('a \<Rightarrow> bool) \<Rightarrow> 'a list \<Rightarrow> nat option" where
  "first_index P [] = None"
| "first_index P (x # xs) = (if P x then Some 0 else map_option Suc (first_index P xs))"

definition find_student_ref :: "student list \<Rightarrow> string \<Rightarrow> nat option" where
  "find_student_ref sts nm =
     (let normalized = lower (strip nm)
      in first_index (\<lambda>s. lower (name s) = normalized) sts)"

subsection \<open>\<^verbatim>\<open>add_new_student\<close>\<close>

definition add_new_student :: "world \<Rightarrow> py_error + world" where
  "add_new_student w =
     (case input w of
        Inl e \<Rightarrow> Inl e
      | Inr (line, w1) \<Rightarrow>
          let nm = strip line
          in if nm = [] then Inr (print EmptyName w1)
             else if find_student (students w1) nm \<noteq> None
               then Inr (print (DuplicateName nm) w1)
             else Inr (print (StudentAdded nm)
                        (w1\<lparr>students := students w1 @ [\<lparr>name = nm, grades = []\<rparr>]\<rparr>)))"

subsection \<open>\<^verbatim>\<open>add_grades_for_student\<close>\<close>

text \<open>
  The \<^verbatim>\<open>while True\<close> loop, for the student at position \<open>i\<close>. Each iteration reads a
  line, so the recursion is on the remaining input; when the input ends before
  \<^verbatim>\<open>done\<close> was read, \<^verbatim>\<open>input\<close> raises \<^verbatim>\<open>EOFError\<close>.
\<close>

definition append_grade :: "nat \<Rightarrow> int \<Rightarrow> student list \<Rightarrow> student list" where
  "append_grade i grade sts = sts[i := (sts ! i)\<lparr>grades := grades (sts ! i) @ [grade]\<rparr>]"

fun grade_loop ::
  "nat \<Rightarrow> student list \<Rightarrow> string list \<Rightarrow> message list
     \<Rightarrow> py_error + (student list \<times> string list \<times> message list)" where
  "grade_loop i sts [] out = Inl EOFError"
| "grade_loop i sts (line # rest) out =
     (let grade_str = strip line
      in if lower grade_str = ''done'' then Inr (sts, rest, out)
         else case py_int grade_str of
                None \<Rightarrow> grade_loop i sts rest (out @ [InvalidFormat])
              | Some grade \<Rightarrow>
                  if \<not> (0 \<le> grade \<and> grade \<le> 100)
                  then grade_loop i sts rest (out @ [OutOfRange])
                  else grade_loop i (append_grade i grade sts) rest out)"

definition add_grades_for_student :: "world \<Rightarrow> py_error + world" where
  "add_grades_for_student w =
     (if students w = [] then Inr (print EmptyRegistry w)
      else case input w of
        Inl e \<Rightarrow> Inl e
      | Inr (line, w1) \<Rightarrow>
          (let nm = strip line
           in (case find_student_ref (students w1) nm of
                 None \<Rightarrow> Inr (print (StudentNotFound nm) w1)
               | Some i \<Rightarrow>
                  (let initial_count = length (grades (students w1 ! i))
                   in (case grade_loop i (students w1) (stdin w1) (stdout w1) of
                         Inl e \<Rightarrow> Inl e
                       | Inr (sts, rest, out) \<Rightarrow>
                          (let grades_added =
                                 int (length (grades (sts ! i))) - int initial_count
                           in Inr (print (GradesUpdated (name (sts ! i)) grades_added)
                                     \<lparr>students = sts, stdin = rest, stdout = out\<rparr>)))))))"

subsection \<open>Arithmetic and the built-in \<^verbatim>\<open>sum\<close>, \<^verbatim>\<open>max\<close>, \<^verbatim>\<open>min\<close>\<close>

text \<open>
  \<^verbatim>\<open>a / b\<close> on two integers: \<^verbatim>\<open>ZeroDivisionError\<close> when \<open>b\<close> is zero; otherwise the float
  nearest to the exact quotient, and \<^verbatim>\<open>OverflowError\<close> when that is beyond the range of a
  float.
\<close>

definition py_truediv :: "int \<Rightarrow> int \<Rightarrow> py_error + rat" where
  "py_truediv a b =
     (if b = 0 then Inl ZeroDivisionError
      else let q = of_int a / of_int b
           in if float_overflow q then Inl OverflowError else Inr (round_double q))"

text \<open>
  \<^verbatim>\<open>x / n\<close> for a float \<open>x\<close> and the length \<open>n\<close> of a list: the length is converted to a
  float and the quotient is rounded. (A list has fewer than \<open>2 ^ 63\<close> elements, so the
  conversion cannot overflow, and a quotient by a number that is at least 1 cannot.)
\<close>

definition float_quotient :: "pyfloat \<Rightarrow> nat \<Rightarrow> pyfloat" where
  "float_quotient x n =
     (case x of
        Finite q \<Rightarrow> Finite (round_double (q / round_double (of_nat n)))
      | PosInf \<Rightarrow> PosInf
      | NegInf \<Rightarrow> NegInf
      | NaN \<Rightarrow> NaN)"

definition float_div_len :: "pyfloat \<Rightarrow> nat \<Rightarrow> py_error + pyfloat" where
  "float_div_len x n = (if n = 0 then Inl ZeroDivisionError else Inr (float_quotient x n))"

text \<open>\<^verbatim>\<open>sum(xs)\<close> over integers adds from the left, starting at 0, and is exact.\<close>

definition py_sum :: "int list \<Rightarrow> int" where
  "py_sum xs = foldl (+) 0 xs"

text \<open>
  \<^verbatim>\<open>sum(xs)\<close> over floats is a parameter of the model (see above). One instance is the
  summation of CPython up to version 3.11: float additions from the left, each one
  rounded; a sum beyond the range of a float is an infinity. (Later versions compensate
  the rounding errors; both agree whenever every partial sum is exact.) It is used for
  the examples.
\<close>

definition float_add :: "pyfloat \<Rightarrow> pyfloat \<Rightarrow> pyfloat" where
  "float_add x y =
     (case (x, y) of
        (Finite a, Finite b) \<Rightarrow>
          (let s = a + b
           in if float_overflow s then (if 0 < s then PosInf else NegInf)
              else Finite (round_double s))
      | (NaN, _) \<Rightarrow> NaN
      | (_, NaN) \<Rightarrow> NaN
      | (PosInf, NegInf) \<Rightarrow> NaN
      | (NegInf, PosInf) \<Rightarrow> NaN
      | (PosInf, _) \<Rightarrow> PosInf
      | (_, PosInf) \<Rightarrow> PosInf
      | (NegInf, _) \<Rightarrow> NegInf
      | (_, NegInf) \<Rightarrow> NegInf)"

definition plain_float_sum :: "rat list \<Rightarrow> pyfloat" where
  "plain_float_sum xs = foldl float_add (Finite 0) (map Finite xs)"

text \<open>
  \<^verbatim>\<open>max(xs, key=f)\<close>: \<^verbatim>\<open>ValueError\<close> on an empty sequence; otherwise a scan from the left
  that replaces the candidate only by an item whose key is strictly greater. An
  exception raised by the key function escapes. \<^verbatim>\<open>min\<close> is the same with strictly less.
  The keys are finite floats.
\<close>

fun max_scan ::
  "('a \<Rightarrow> py_error + rat) \<Rightarrow> 'a \<Rightarrow> rat \<Rightarrow> 'a list \<Rightarrow> py_error + 'a" where
  "max_scan key maxitem maxval [] = Inr maxitem"
| "max_scan key maxitem maxval (x # xs) =
     (case key x of
        Inl e \<Rightarrow> Inl e
      | Inr v \<Rightarrow> if v > maxval then max_scan key x v xs
                 else max_scan key maxitem maxval xs)"

definition py_max_key :: "('a \<Rightarrow> py_error + rat) \<Rightarrow> 'a list \<Rightarrow> py_error + 'a" where
  "py_max_key key xs =
     (case xs of
        [] \<Rightarrow> Inl ValueError
      | x # rest \<Rightarrow> (case key x of Inl e \<Rightarrow> Inl e | Inr v \<Rightarrow> max_scan key x v rest))"

fun min_scan :: "rat \<Rightarrow> rat list \<Rightarrow> rat" where
  "min_scan minval [] = minval"
| "min_scan minval (x # xs) = (if x < minval then min_scan x xs else min_scan minval xs)"

definition py_max :: "rat list \<Rightarrow> py_error + rat" where
  "py_max xs = py_max_key Inr xs"

definition py_min :: "rat list \<Rightarrow> py_error + rat" where
  "py_min xs = (case xs of [] \<Rightarrow> Inl ValueError | x # rest \<Rightarrow> Inr (min_scan x rest))"

subsection \<open>\<^verbatim>\<open>show_report\<close>\<close>

text \<open>
  The body of the \<^verbatim>\<open>try\<close>: \<^verbatim>\<open>sum(grades) / len(grades)\<close>; the handler turns
  \<^verbatim>\<open>ZeroDivisionError\<close>, and no other exception, into \<^verbatim>\<open>avg = None\<close>.
\<close>

definition try_average :: "int list \<Rightarrow> py_error + rat option" where
  "try_average gs =
     (let student_sum = py_sum gs
      in case py_truediv student_sum (int (length gs)) of
           Inl ZeroDivisionError \<Rightarrow> Inr None
         | Inl e \<Rightarrow> Inl e
         | Inr avg \<Rightarrow> Inr (Some avg))"

text \<open>The \<^verbatim>\<open>for student in students\<close> loop, with the list \<^verbatim>\<open>averages\<close> it fills.\<close>

fun report_loop ::
  "student list \<Rightarrow> rat list \<Rightarrow> message list \<Rightarrow> py_error + (rat list \<times> message list)" where
  "report_loop [] averages out = Inr (averages, out)"
| "report_loop (student # rest) averages out =
     (case try_average (grades student) of
        Inl e \<Rightarrow> Inl e
      | Inr None \<Rightarrow> report_loop rest averages (out @ [AverageNA (name student)])
      | Inr (Some avg) \<Rightarrow>
          report_loop rest (averages @ [avg]) (out @ [Average (name student) avg]))"

definition show_report :: "(rat list \<Rightarrow> pyfloat) \<Rightarrow> world \<Rightarrow> py_error + world" where
  "show_report fsum w =
     (if students w = [] then Inr (print NoStudentsToReport w)
      else case report_loop (students w) [] (stdout w @ [ReportHeader]) of
        Inl e \<Rightarrow> Inl e
      | Inr (averages, out) \<Rightarrow>
         (if averages = [] then Inr (w\<lparr>stdout := out @ [NoGradesYet, RuleEnd]\<rparr>)
          else (case py_max averages of
                  Inl e \<Rightarrow> Inl e
                | Inr max_avg \<Rightarrow>
                   (case py_min averages of
                      Inl e \<Rightarrow> Inl e
                    | Inr min_avg \<Rightarrow>
                       (case float_div_len (fsum averages) (length averages) of
                          Inl e \<Rightarrow> Inl e
                        | Inr overall_avg \<Rightarrow>
                            Inr (w\<lparr>stdout := out @ [Rule, MaxAverage max_avg,
                                   MinAverage min_avg, OverallAverage overall_avg, RuleEnd]\<rparr>))))))"

subsection \<open>\<^verbatim>\<open>find_top_performer\<close>\<close>

text \<open>The key function \<^verbatim>\<open>lambda s: sum(s["grades"]) / len(s["grades"])\<close>.\<close>

definition average_key :: "student \<Rightarrow> py_error + rat" where
  "average_key s = py_truediv (py_sum (grades s)) (int (length (grades s)))"

definition find_top_performer :: "world \<Rightarrow> py_error + world" where
  "find_top_performer w =
     (if students w = [] then Inr (print NoStudentsFound w)
      else
        let students_with_grades = filter (\<lambda>s. grades s \<noteq> []) (students w)
        in if students_with_grades = [] then Inr (print NoGradesAvailable w)
           else case py_max_key average_key students_with_grades of
             Inl e \<Rightarrow> Inl e
           | Inr top_student \<Rightarrow>
              (case py_truediv (py_sum (grades top_student))
                               (int (length (grades top_student))) of
                 Inl e \<Rightarrow> Inl e
               | Inr top_avg \<Rightarrow> Inr (print (TopPerformer (name top_student) top_avg) w)))"

subsection \<open>\<^verbatim>\<open>main\<close>\<close>

text \<open>
  One pass through the body of \<^verbatim>\<open>while True\<close>. It ends in \<^verbatim>\<open>break\<close>, or it reaches
  the end of the body or a \<^verbatim>\<open>continue\<close>; an exception of a callee escapes.
\<close>

datatype loop_exit = Break | Continue

definition main_iteration ::
  "(rat list \<Rightarrow> pyfloat) \<Rightarrow> world \<Rightarrow> py_error + (loop_exit \<times> world)" where
  "main_iteration fsum w =
     (case input (print Menu w) of
        Inl e \<Rightarrow> Inl e
      | Inr (line, w1) \<Rightarrow>
         (let choice_str = strip line
          in (case py_int choice_str of
                None \<Rightarrow> Inr (Continue, print InvalidChoiceNotANumber w1)
              | Some choice \<Rightarrow>
                  if choice = 1 then map_sum id (Pair Continue) (add_new_student w1)
                  else if choice = 2 then map_sum id (Pair Continue) (add_grades_for_student w1)
                  else if choice = 3 then map_sum id (Pair Continue) (show_report fsum w1)
                  else if choice = 4 then map_sum id (Pair Continue) (find_top_performer w1)
                  else if choice = 5 then Inr (Break, print ExitingProgram w1)
                  else Inr (Continue, print InvalidChoiceNotInMenu w1))))"

section \<open>Vocabulary of the specification\<close>

text \<open>The normalized form of a name: trimmed, then lowercased.\<close>

definition normalized_name :: "string \<Rightarrow> string" where
  "normalized_name s = lower (strip s)"

text \<open>No stored name has leading or trailing whitespace.\<close>

definition names_trimmed :: "student list \<Rightarrow> bool" where
  "names_trimmed sts = (\<forall>s\<in>set sts. strip (name s) = name s)"

text \<open>The sentinel that ends the entry of grades: \<^verbatim>\<open>done\<close>, in any case, trimmed.\<close>

definition is_done :: "string \<Rightarrow> bool" where
  "is_done t = (lower (strip t) = ''done'')"

text \<open>
  What the specification does with one grade token: it is accepted when it parses as an
  integer in the range 0 to 100; otherwise it is rejected, with \<open>InvalidFormat\<close> when it
  does not parse and with \<open>OutOfRange\<close> when it parses outside the range.
\<close>

definition accepted :: "string \<Rightarrow> int option" where
  "accepted t =
     (case py_int (strip t) of
        None \<Rightarrow> None
      | Some g \<Rightarrow> if 0 \<le> g \<and> g \<le> 100 then Some g else None)"

definition rejection :: "string \<Rightarrow> message option" where
  "rejection t =
     (case py_int (strip t) of
        None \<Rightarrow> Some InvalidFormat
      | Some g \<Rightarrow> if 0 \<le> g \<and> g \<le> 100 then None else Some OutOfRange)"

text \<open>The registry after the grades \<open>gs\<close> were appended to the record at position \<open>i\<close>.\<close>

definition add_to :: "nat \<Rightarrow> int list \<Rightarrow> student list \<Rightarrow> student list" where
  "add_to i gs sts = sts[i := (sts ! i)\<lparr>grades := grades (sts ! i) @ gs\<rparr>]"

text \<open>
  A student's average in exact arithmetic (the sum of the grades divided by their number),
  and as the float the code computes.
\<close>

definition exact_average :: "student \<Rightarrow> rat" where
  "exact_average s = of_int (sum_list (grades s)) / of_nat (length (grades s))"

definition float_average :: "student \<Rightarrow> rat" where
  "float_average s = round_double (exact_average s)"

text \<open>
  The average of every student that has grades is within the range of a float. (It is
  whenever the grades are between 0 and 100.)
\<close>

definition averages_in_float_range :: "student list \<Rightarrow> bool" where
  "averages_in_float_range sts =
     (\<forall>s\<in>set sts. grades s \<noteq> [] \<longrightarrow> \<not> float_overflow (exact_average s))"

text \<open>
  The line of the report for one student: \<open>AverageNA\<close> (not available) for a student
  without grades, the average otherwise.
\<close>

definition report_line :: "student \<Rightarrow> message" where
  "report_line s =
     (if grades s = [] then AverageNA (name s) else Average (name s) (float_average s))"

text \<open>The averages that are defined, in registry order.\<close>

definition defined_averages :: "student list \<Rightarrow> rat list" where
  "defined_averages sts = map float_average (filter (\<lambda>s. grades s \<noteq> []) sts)"

text \<open>
  The report of the specification (4.4): \<open>NoStudents\<close> for an empty registry; otherwise
  the list of per-student lines, followed by \<open>NoGradesYet\<close> when no average is defined,
  and else by the maximum and the minimum of the defined averages and by the quotient
  of their float sum by their number.
\<close>

definition report_output :: "(rat list \<Rightarrow> pyfloat) \<Rightarrow> student list \<Rightarrow> message list" where
  "report_output fsum sts =
     (if sts = [] then [NoStudentsToReport]
      else ReportHeader # map report_line sts @
        (let avs = defined_averages sts
         in if avs = [] then [NoGradesYet, RuleEnd]
            else [Rule, MaxAverage (Max (set avs)), MinAverage (Min (set avs)),
                  OverallAverage (float_quotient (fsum avs) (length avs)), RuleEnd]))"

text \<open>
  The registries the program can build: starting from the empty list, by calls of
  \<^verbatim>\<open>add_new_student\<close> and \<^verbatim>\<open>add_grades_for_student\<close> that return, on any input and
  with any output so far.
\<close>

inductive reachable :: "student list \<Rightarrow> bool" where
  empty: "reachable []"
| add_student:
    "reachable (students w) \<Longrightarrow> add_new_student w = Inr w' \<Longrightarrow> reachable (students w')"
| add_grades:
    "reachable (students w) \<Longrightarrow> add_grades_for_student w = Inr w' \<Longrightarrow> reachable (students w')"

text \<open>The invariants of the data model, and the one the code maintains to keep them.\<close>

definition grades_in_range :: "student list \<Rightarrow> bool" where
  "grades_in_range sts = (\<forall>s\<in>set sts. \<forall>g\<in>set (grades s). 0 \<le> g \<and> g \<le> 100)"

definition names_unique :: "student list \<Rightarrow> bool" where
  "names_unique sts = distinct (map (\<lambda>s. normalized_name (name s)) sts)"

definition registry_inv :: "student list \<Rightarrow> bool" where
  "registry_inv sts = (grades_in_range sts \<and> names_unique sts \<and> names_trimmed sts)"

section \<open>Properties\<close>

subsection \<open>Strings and positions\<close>

lemma strip_idem: "strip (strip s) = strip s"
proof -
  define t where "t = dropWhile isspace s"
  define u where "u = rev (dropWhile isspace (rev t))"
  have "dropWhile isspace u = u"
  proof (cases "u = []")
    case True
    then show ?thesis by simp
  next
    case False
    then have ne: "dropWhile isspace (rev t) \<noteq> []" by (simp add: u_def)
    then have tne: "t \<noteq> []" by auto
    have "hd u = last (dropWhile isspace (rev t))"
      using ne by (simp add: u_def hd_rev)
    also have "\<dots> = last (rev t)"
      using ne by (metis last_appendR takeWhile_dropWhile_id)
    also have "\<dots> = hd t" using tne by (simp add: last_rev)
    finally have "hd u = hd t" .
    moreover have "\<not> isspace (hd t)" using tne unfolding t_def by (rule hd_dropWhile)
    ultimately show ?thesis by (simp add: dropWhile_eq_self_iff)
  qed
  then show ?thesis by (simp add: strip_def u_def t_def)
qed

lemma normalized_name_strip: "normalized_name (strip s) = normalized_name s"
  by (simp add: normalized_name_def strip_idem)

text \<open>
  A literal that consists of digits is neither trimmed nor signed, and \<^verbatim>\<open>int\<close> refuses it
  when it has more digits than the limit.
\<close>

lemma is_digit_not_space: "is_digit c \<Longrightarrow> \<not> int_space c \<and> \<not> isspace c"
  by (auto simp: is_digit_def int_space_def isspace_def Let_def)

lemma is_digit_not_sign: "is_digit c \<Longrightarrow> c \<noteq> CHR ''-'' \<and> c \<noteq> CHR ''+''"
  by (auto simp: is_digit_def)

lemma trim_digits:
  assumes "\<forall>c\<in>set s. is_digit c" and that: "\<And>c. is_digit c \<Longrightarrow> \<not> P c"
  shows "rev (dropWhile P (rev (dropWhile P s))) = s"
proof (cases s)
  case Nil
  then show ?thesis by simp
next
  case (Cons c cs)
  then have "\<not> P (hd s)" using assms that by simp
  then have 1: "dropWhile P s = s" by (simp add: dropWhile_eq_self_iff)
  have "s \<noteq> []" using Cons by simp
  then have "last s \<in> set s" by simp
  then have "\<not> P (last s)" using assms that by blast
  then have "\<not> P (hd (rev s))" using \<open>s \<noteq> []\<close> by (simp add: hd_rev)
  then have "dropWhile P (rev s) = rev s" by (simp add: dropWhile_eq_self_iff)
  with 1 show ?thesis by simp
qed

lemma strip_digits: "\<forall>c\<in>set s. is_digit c \<Longrightarrow> strip s = s"
  unfolding strip_def by (rule trim_digits) (simp_all add: is_digit_not_space)

lemma py_int_digit_limit:
  assumes "\<forall>c\<in>set s. is_digit c" and "max_str_digits < length s"
  shows "py_int s = None"
proof -
  have t: "rev (dropWhile int_space (rev (dropWhile int_space s))) = s"
    using assms(1) by (rule trim_digits) (simp add: is_digit_not_space)
  from assms(2) obtain c cs where s: "s = c # cs" by (cases s) auto
  then have "is_digit c" using assms(1) by simp
  then have c: "c \<noteq> CHR ''-''" "c \<noteq> CHR ''+''" by (simp_all add: is_digit_not_sign)
  have f: "filter is_digit s = s" using assms(1) by simp
  show ?thesis
    unfolding py_int_def t using c f assms(2) by (simp add: s)
qed

lemma long_literal_refused:
  assumes "\<forall>c\<in>set s. is_digit c" and "4300 < length s"
  shows "py_int (strip s) = None"
proof -
  have "max_str_digits < length s" using assms(2) by (simp add: max_str_digits_def)
  with assms(1) show ?thesis by (simp only: strip_digits py_int_digit_limit)
qed

lemma is_done_length: "is_done t \<Longrightarrow> length (strip t) = 4"
proof -
  assume "is_done t"
  then have "length (lower (strip t)) = length ''done''" by (simp add: is_done_def)
  then show ?thesis by (simp add: lower_def)
qed


lemma first_index_None_iff: "first_index P xs = None \<longleftrightarrow> (\<forall>x\<in>set xs. \<not> P x)"
  by (induction xs) auto

lemma first_index_Some_iff:
  "first_index P xs = Some i \<longleftrightarrow> i < length xs \<and> P (xs ! i) \<and> (\<forall>j<i. \<not> P (xs ! j))"
proof (induction xs arbitrary: i)
  case Nil
  then show ?case by simp
next
  case (Cons x xs)
  show ?case
  proof (cases "P x")
    case True
    then show ?thesis by (cases i) auto
  next
    case False
    show ?thesis
    proof (cases i)
      case 0
      with False show ?thesis by auto
    next
      case (Suc k)
      have "(\<forall>j<Suc k. \<not> P ((x # xs) ! j)) \<longleftrightarrow> (\<forall>j<k. \<not> P (xs ! j))"
        using False by (auto simp: less_Suc_eq_0_disj)
      with False Suc Cons.IH[of k] show ?thesis by auto
    qed
  qed
qed

lemma find_first_index: "List.find P xs = map_option (nth xs) (first_index P xs)"
  by (induction xs) (auto simp: option.map_comp comp_def)

subsection \<open>Lookup\<close>

text \<open>The reference and the record found are the same list element.\<close>

lemma find_student_via_ref:
  "find_student sts nm = map_option (nth sts) (find_student_ref sts nm)"
  by (simp add: find_student_def find_student_ref_def find_first_index)

lemma find_student_spec:
  "find_student sts nm = List.find (\<lambda>s. lower (name s) = normalized_name nm) sts"
  by (simp add: find_student_def normalized_name_def)

lemma find_student_strip: "find_student sts (strip nm) = find_student sts nm"
  by (simp add: find_student_def strip_idem)

lemma find_student_ref_strip: "find_student_ref sts (strip nm) = find_student_ref sts nm"
  by (simp add: find_student_ref_def strip_idem)

lemma find_student_trimmed:
  assumes "names_trimmed sts"
  shows "find_student sts nm =
           List.find (\<lambda>s. normalized_name (name s) = normalized_name nm) sts"
proof -
  have "\<And>s. s \<in> set sts \<Longrightarrow>
          (lower (name s) = normalized_name nm) =
          (normalized_name (name s) = normalized_name nm)"
    using assms by (simp add: names_trimmed_def normalized_name_def)
  then show ?thesis unfolding find_student_spec by (rule find_cong[OF refl])
qed

text \<open>
  C7, as stated, fails: \<^verbatim>\<open>find_student\<close> lowercases a stored name but does not trim it,
  so a record stored with surrounding whitespace is not found under its normalized name.
\<close>

theorem find_student_untrimmed_counterexample:
  "normalized_name (name \<lparr>name = '' ann'', grades = []\<rparr>) = normalized_name ''ann'' \<and>
   find_student [\<lparr>name = '' ann'', grades = []\<rparr>] ''ann'' = None"
  by code_simp

text \<open>
  C7, amended: for every registry whose stored names have no surrounding whitespace, and
  every input string, \<^verbatim>\<open>find_student\<close> returns the first record in registry order whose
  normalized stored name equals the normalized input, and \<open>None\<close> (absence, not an
  error) when no record matches. The function only reads the list: its result is the
  record found, and the model has no state to change.
\<close>

theorem find_student_first_match:
  assumes "names_trimmed sts"
  shows "(find_student sts nm = None \<longleftrightarrow>
            \<not> (\<exists>s\<in>set sts. normalized_name (name s) = normalized_name nm)) \<and>
         (\<forall>r. find_student sts nm = Some r \<longleftrightarrow>
            (\<exists>i<length sts. r = sts ! i \<and>
               normalized_name (name (sts ! i)) = normalized_name nm \<and>
               (\<forall>j<i. normalized_name (name (sts ! j)) \<noteq> normalized_name nm)))"
  unfolding find_student_trimmed[OF assms] find_None_iff find_Some_iff by blast

theorem find_student_first_match_witness:
  "names_trimmed [\<lparr>name = ''Ann'', grades = [90]\<rparr>, \<lparr>name = ''Bob'', grades = []\<rparr>] \<and>
   find_student [\<lparr>name = ''Ann'', grades = [90]\<rparr>, \<lparr>name = ''Bob'', grades = []\<rparr>] ''  bOB ''
     = Some \<lparr>name = ''Bob'', grades = []\<rparr> \<and>
   find_student [\<lparr>name = ''Ann'', grades = [90]\<rparr>, \<lparr>name = ''Bob'', grades = []\<rparr>] ''Eve''
     = None"
proof -
  let ?sts = "[\<lparr>name = ''Ann'', grades = [90]\<rparr>, \<lparr>name = ''Bob'', grades = []\<rparr>]"
  have h: "names_trimmed ?sts"
    by (simp add: names_trimmed_def strip_def isspace_def)
  have n1: "normalized_name ''Ann'' \<noteq> normalized_name ''  bOB ''"
    by code_simp
  have n2: "normalized_name ''Bob'' = normalized_name ''  bOB ''"
    by code_simp
  have n3: "normalized_name ''Ann'' \<noteq> normalized_name ''Eve''"
    "normalized_name ''Bob'' \<noteq> normalized_name ''Eve''"
    by code_simp+
  note t1 = find_student_first_match[OF h, of "''  bOB ''"]
  note t2 = find_student_first_match[OF h, of "''Eve''"]
  have "\<exists>i<length ?sts. \<lparr>name = ''Bob'', grades = []\<rparr> = ?sts ! i \<and>
          normalized_name (name (?sts ! i)) = normalized_name ''  bOB '' \<and>
          (\<forall>j<i. normalized_name (name (?sts ! j)) \<noteq> normalized_name ''  bOB '')"
    using n1 n2 by (intro exI[of _ 1]) simp
  then have "find_student ?sts ''  bOB '' = Some \<lparr>name = ''Bob'', grades = []\<rparr>"
    using t1 by blast
  moreover have "find_student ?sts ''Eve'' = None"
    using t2 n3 by simp
  ultimately show ?thesis using h by blast
qed

subsection \<open>Adding a student\<close>

text \<open>What the code does on every registry: the duplicate test lowercases the stored name.\<close>

lemma add_new_student_code:
  assumes "stdin w = line # rest"
  shows "add_new_student w =
     Inr (if strip line = [] then w\<lparr>stdin := rest, stdout := stdout w @ [EmptyName]\<rparr>
          else if \<exists>s\<in>set (students w). lower (name s) = normalized_name line
            then w\<lparr>stdin := rest, stdout := stdout w @ [DuplicateName (strip line)]\<rparr>
          else w\<lparr>students := students w @ [\<lparr>name = strip line, grades = []\<rparr>],
                 stdin := rest, stdout := stdout w @ [StudentAdded (strip line)]\<rparr>)"
  using assms
  by (auto simp: add_new_student_def input_def print_def Let_def find_student_spec
        find_None_iff normalized_name_strip)

text \<open>
  C3, as stated, fails: a record stored with surrounding whitespace does not block a new
  student of the same normalized name.
\<close>

theorem add_new_student_untrimmed_counterexample:
  "normalized_name (name \<lparr>name = '' ann'', grades = []\<rparr>) = normalized_name ''ann'' \<and>
   add_new_student
     \<lparr>students = [\<lparr>name = '' ann'', grades = []\<rparr>], stdin = [''ann''], stdout = []\<rparr>
     = Inr \<lparr>students = [\<lparr>name = '' ann'', grades = []\<rparr>, \<lparr>name = ''ann'', grades = []\<rparr>],
            stdin = [], stdout = [StudentAdded ''ann'']\<rparr>"
  by code_simp

text \<open>
  C3, amended: for every registry whose stored names have no surrounding whitespace and
  every raw name line, \<^verbatim>\<open>add_new_student\<close> reports \<open>EmptyName\<close> exactly when the trimmed
  name is empty; otherwise it reports \<open>DuplicateName\<close> exactly when some record's
  normalized name equals the normalized input; in both cases the registry is unchanged;
  otherwise it appends the record with the trimmed name in its original case and no
  grades at the end of the registry.
\<close>

theorem add_new_student_outcome:
  assumes "stdin w = line # rest" and "names_trimmed (students w)"
  shows "add_new_student w =
     Inr (if strip line = [] then w\<lparr>stdin := rest, stdout := stdout w @ [EmptyName]\<rparr>
          else if \<exists>s\<in>set (students w). normalized_name (name s) = normalized_name line
            then w\<lparr>stdin := rest, stdout := stdout w @ [DuplicateName (strip line)]\<rparr>
          else w\<lparr>students := students w @ [\<lparr>name = strip line, grades = []\<rparr>],
                 stdin := rest, stdout := stdout w @ [StudentAdded (strip line)]\<rparr>)"
proof -
  have "(\<exists>s\<in>set (students w). lower (name s) = normalized_name line) =
        (\<exists>s\<in>set (students w). normalized_name (name s) = normalized_name line)"
    using assms(2) by (simp add: names_trimmed_def normalized_name_def)
  then show ?thesis using add_new_student_code[OF assms(1)] by simp
qed

theorem add_new_student_outcome_witness:
  "names_trimmed [\<lparr>name = ''Ann'', grades = [90]\<rparr>] \<and>
   add_new_student
     \<lparr>students = [\<lparr>name = ''Ann'', grades = [90]\<rparr>], stdin = [''   '', ''x''], stdout = []\<rparr>
     = Inr \<lparr>students = [\<lparr>name = ''Ann'', grades = [90]\<rparr>], stdin = [''x''],
            stdout = [EmptyName]\<rparr> \<and>
   add_new_student
     \<lparr>students = [\<lparr>name = ''Ann'', grades = [90]\<rparr>], stdin = ['' aNN ''], stdout = []\<rparr>
     = Inr \<lparr>students = [\<lparr>name = ''Ann'', grades = [90]\<rparr>], stdin = [],
            stdout = [DuplicateName ''aNN'']\<rparr> \<and>
   add_new_student
     \<lparr>students = [\<lparr>name = ''Ann'', grades = [90]\<rparr>], stdin = ['' Bob ''], stdout = []\<rparr>
     = Inr \<lparr>students = [\<lparr>name = ''Ann'', grades = [90]\<rparr>, \<lparr>name = ''Bob'', grades = []\<rparr>],
            stdin = [], stdout = [StudentAdded ''Bob'']\<rparr>"
proof -
  let ?sts = "[\<lparr>name = ''Ann'', grades = [90]\<rparr>]"
  have h: "names_trimmed (students \<lparr>students = ?sts, stdin = l, stdout = []\<rparr>)" for l
    by (simp add: names_trimmed_def strip_def isspace_def)
  have s1: "strip ''   '' = []" and s2: "strip '' aNN '' = ''aNN''"
    and s3: "strip '' Bob '' = ''Bob''"
    by code_simp+
  have n2: "normalized_name ''Ann'' = normalized_name '' aNN ''"
    and n3: "normalized_name ''Ann'' \<noteq> normalized_name '' Bob ''"
    by code_simp+
  have "add_new_student \<lparr>students = ?sts, stdin = [''   '', ''x''], stdout = []\<rparr>
     = Inr \<lparr>students = ?sts, stdin = [''x''], stdout = [EmptyName]\<rparr>"
    using add_new_student_outcome[OF _ h, of "[''   '', ''x'']" "''   ''" "[''x'']"] s1
    by simp
  moreover have "add_new_student \<lparr>students = ?sts, stdin = ['' aNN ''], stdout = []\<rparr>
     = Inr \<lparr>students = ?sts, stdin = [], stdout = [DuplicateName ''aNN'']\<rparr>"
    using add_new_student_outcome[OF _ h, of "['' aNN '']" "'' aNN ''" "[]"] s2 n2
    by simp
  moreover have "add_new_student \<lparr>students = ?sts, stdin = ['' Bob ''], stdout = []\<rparr>
     = Inr \<lparr>students = ?sts @ [\<lparr>name = ''Bob'', grades = []\<rparr>], stdin = [],
            stdout = [StudentAdded ''Bob'']\<rparr>"
    using add_new_student_outcome[OF _ h, of "['' Bob '']" "'' Bob ''" "[]"] s3 n3
    by simp
  ultimately show ?thesis using h[of "[]"] by simp
qed

subsection \<open>The grade loop\<close>

lemma add_to_Nil: "i < length sts \<Longrightarrow> add_to i [] sts = sts"
  by (simp add: add_to_def)

lemma add_to_append_grade:
  "i < length sts \<Longrightarrow> add_to i gs (append_grade i g sts) = add_to i (g # gs) sts"
  by (simp add: add_to_def append_grade_def)

lemma length_append_grade: "length (append_grade i g sts) = length sts"
  by (simp add: append_grade_def)

text \<open>
  On input that reaches the sentinel, the loop returns: the accepted grades are appended
  in order, one message is printed for each rejected token, and the input after the
  sentinel is left unread.
\<close>

lemma grade_loop_done:
  assumes "\<forall>t\<in>set ts. \<not> is_done t" and "is_done d" and "i < length sts"
  shows "grade_loop i sts (ts @ d # rest) out =
           Inr (add_to i (List.map_filter accepted ts) sts, rest,
                out @ List.map_filter rejection ts)"
  using assms
proof (induction ts arbitrary: sts out)
  case Nil
  then show ?case by (simp add: is_done_def add_to_Nil map_filter_simps)
next
  case (Cons t ts)
  have nd: "lower (strip t) \<noteq> ''done''" using Cons.prems(1) by (simp add: is_done_def)
  have rest: "\<forall>t\<in>set ts. \<not> is_done t" using Cons.prems(1) by simp
  show ?case
  proof (cases "py_int (strip t)")
    case None
    then have "accepted t = None" "rejection t = Some InvalidFormat"
      by (simp_all add: accepted_def rejection_def)
    then show ?thesis
      using nd None Cons.IH[OF rest Cons.prems(2) Cons.prems(3)]
      by (simp add: map_filter_simps)
  next
    case (Some g)
    show ?thesis
    proof (cases "0 \<le> g \<and> g \<le> 100")
      case True
      have len: "i < length (append_grade i g sts)"
        using Cons.prems(3) by (simp add: length_append_grade)
      have "accepted t = Some g" "rejection t = None"
        using Some True by (simp_all add: accepted_def rejection_def)
      then show ?thesis
        using nd Some True Cons.IH[OF rest Cons.prems(2) len] Cons.prems(3)
        by (simp add: map_filter_simps add_to_append_grade)
    next
      case False
      have "accepted t = None" "rejection t = Some OutOfRange"
        using Some False by (simp_all add: accepted_def rejection_def)
      then show ?thesis
        using nd Some False Cons.IH[OF rest Cons.prems(2) Cons.prems(3)]
        by (simp add: map_filter_simps)
    qed
  qed
qed

text \<open>The loop returns only on such input: otherwise the input runs out.\<close>

lemma grade_loop_returns:
  assumes "grade_loop i sts inp out = Inr r"
  shows "\<exists>ts d rest. inp = ts @ d # rest \<and> (\<forall>t\<in>set ts. \<not> is_done t) \<and> is_done d"
  using assms
proof (induction inp arbitrary: sts out)
  case Nil
  then show ?case by simp
next
  case (Cons l ls)
  show ?case
  proof (cases "is_done l")
    case True
    then have "l # ls = [] @ l # ls \<and> (\<forall>t\<in>set []. \<not> is_done t) \<and> is_done l" by simp
    then show ?thesis by blast
  next
    case False
    then have "\<exists>sts' out'. grade_loop i sts' ls out' = Inr r"
      using Cons.prems
      by (auto simp: is_done_def Let_def split: option.splits if_splits)
    then obtain ts d rest where "ls = ts @ d # rest" "\<forall>t\<in>set ts. \<not> is_done t" "is_done d"
      using Cons.IH by blast
    with False have
      "l # ls = (l # ts) @ d # rest \<and> (\<forall>t\<in>set (l # ts). \<not> is_done t) \<and> is_done d"
      by simp
    then show ?thesis by blast
  qed
qed

subsection \<open>Adding grades\<close>

lemma find_student_ref_bound: "find_student_ref sts nm = Some i \<Longrightarrow> i < length sts"
  by (simp add: find_student_ref_def first_index_Some_iff)

lemma find_student_ref_None: "find_student_ref sts nm = None \<longleftrightarrow> find_student sts nm = None"
  by (simp add: find_student_via_ref)

lemma add_to_frame:
  "length (add_to i gs sts) = length sts \<and>
   (\<forall>j. j \<noteq> i \<longrightarrow> add_to i gs sts ! j = sts ! j) \<and>
   (i < length sts \<longrightarrow> name (add_to i gs sts ! i) = name (sts ! i) \<and>
        grades (add_to i gs sts ! i) = grades (sts ! i) @ gs)"
  by (simp add: add_to_def)

lemma add_grades_for_student_done:
  assumes "stdin w = line # ts @ d # rest"
    and "find_student_ref (students w) line = Some i"
    and "\<forall>t\<in>set ts. \<not> is_done t" and "is_done d"
  shows "add_grades_for_student w =
     Inr \<lparr>students = add_to i (List.map_filter accepted ts) (students w),
          stdin = rest,
          stdout = stdout w @ List.map_filter rejection ts @
                   [GradesUpdated (name (students w ! i))
                      (int (length (List.map_filter accepted ts)))]\<rparr>"
proof -
  have i: "i < length (students w)" using assms(2) by (rule find_student_ref_bound)
  then have ne: "students w \<noteq> []" by auto
  have loop: "grade_loop i (students w) (ts @ d # rest) (stdout w) =
           Inr (add_to i (List.map_filter accepted ts) (students w), rest,
                stdout w @ List.map_filter rejection ts)"
    using assms(3,4) i by (rule grade_loop_done)
  show ?thesis
    using ne assms(1,2) i loop
    by (simp add: add_grades_for_student_def input_def print_def find_student_ref_strip
          add_to_frame)
qed

text \<open>
  C2: when the lookup finds the target student (at position \<open>i\<close>) and the tokens \<open>ts\<close>
  are followed by the sentinel, \<^verbatim>\<open>add_grades_for_student\<close> returns; it has appended to
  that student's grades exactly the tokens that parse as integers from 0 to 100, in the
  order received; each token that does not parse was answered by \<open>InvalidFormat\<close> and each
  parsed token outside the range by \<open>OutOfRange\<close>, and the loop went on; the count
  reported at the end is the number of accepted tokens, which is the number of grades
  after the call minus the number before it.
\<close>

theorem add_grades_for_student_accepts:
  assumes "stdin w = line # ts @ d # rest"
    and "find_student_ref (students w) line = Some i"
    and "\<forall>t\<in>set ts. \<not> is_done t" and "is_done d"
  shows "\<exists>w'. add_grades_for_student w = Inr w' \<and>
     students w' = add_to i (List.map_filter accepted ts) (students w) \<and>
     stdin w' = rest \<and>
     stdout w' = stdout w @ List.map_filter rejection ts @
                   [GradesUpdated (name (students w ! i))
                      (int (length (List.map_filter accepted ts)))] \<and>
     int (length (List.map_filter accepted ts)) =
       int (length (grades (students w' ! i))) - int (length (grades (students w ! i)))"
proof -
  have i: "i < length (students w)" using assms(2) by (rule find_student_ref_bound)
  show ?thesis
    unfolding add_grades_for_student_done[OF assms] using i by (simp add: add_to_frame)
qed


theorem add_grades_for_student_accepts_witness:
  "find_student_ref [\<lparr>name = ''Ann'', grades = []\<rparr>] '' ann '' = Some 0 \<and>
   is_done '' DONE'' \<and>
   add_grades_for_student
     \<lparr>students = [\<lparr>name = ''Ann'', grades = []\<rparr>],
      stdin = ['' ann '', ''50'', ''notanumber'', ''150'', '' DONE'', ''3''], stdout = []\<rparr>
   = Inr \<lparr>students = [\<lparr>name = ''Ann'', grades = [50]\<rparr>], stdin = [''3''],
          stdout = [InvalidFormat, OutOfRange, GradesUpdated ''Ann'' 1]\<rparr>"
proof -
  let ?w = "\<lparr>students = [\<lparr>name = ''Ann'', grades = []\<rparr>],
      stdin = ['' ann '', ''50'', ''notanumber'', ''150'', '' DONE'', ''3''], stdout = []\<rparr>"
  have h1: "stdin ?w = '' ann '' # [''50'', ''notanumber'', ''150''] @ '' DONE'' # [''3'']"
    by simp
  have h2: "find_student_ref (students ?w) '' ann '' = Some 0"
    by code_simp
  have h3: "\<forall>t\<in>set [''50'', ''notanumber'', ''150'']. \<not> is_done t"
    by code_simp
  have h4: "is_done '' DONE''"
    by code_simp
  have a: "List.map_filter accepted [''50'', ''notanumber'', ''150''] = [50]"
    by code_simp
  have r: "List.map_filter rejection [''50'', ''notanumber'', ''150'']
             = [InvalidFormat, OutOfRange]"
    by code_simp
  obtain w' where w': "add_grades_for_student ?w = Inr w'"
    "students w' = add_to 0 (List.map_filter accepted [''50'', ''notanumber'', ''150''])
                     (students ?w)"
    "stdin w' = [''3'']"
    "stdout w' = stdout ?w @ List.map_filter rejection [''50'', ''notanumber'', ''150''] @
                   [GradesUpdated (name (students ?w ! 0))
                      (int (length (List.map_filter accepted [''50'', ''notanumber'', ''150''])))]"
    using add_grades_for_student_accepts[OF h1 h2 h3 h4] by blast
  have "w' = \<lparr>students = [\<lparr>name = ''Ann'', grades = [50]\<rparr>], stdin = [''3''],
          stdout = [InvalidFormat, OutOfRange, GradesUpdated ''Ann'' 1]\<rparr>"
    using w'(2,3,4) unfolding a r by (cases w') (simp add: add_to_def)
  then show ?thesis using w'(1) h2 h4 by simp
qed

text \<open>
  C8: with an empty registry, and when the lookup fails, \<^verbatim>\<open>add_grades_for_student\<close>
  prints its message and leaves the registry as it is. When the lookup finds the student
  at position \<open>i\<close>, every return of the call leaves the length of the registry, the
  names and every record at another position unchanged; and the call does return when
  the tokens end with the sentinel.
\<close>

theorem add_grades_for_student_frame:
  "(students w = [] \<longrightarrow>
      add_grades_for_student w = Inr (w\<lparr>stdout := stdout w @ [EmptyRegistry]\<rparr>)) \<and>
   (students w \<noteq> [] \<and> stdin w = line # inp \<and> find_student (students w) line = None \<longrightarrow>
      add_grades_for_student w =
        Inr (w\<lparr>stdin := inp, stdout := stdout w @ [StudentNotFound (strip line)]\<rparr>)) \<and>
   (stdin w = line # inp \<and> find_student_ref (students w) line = Some i \<and>
    add_grades_for_student w = Inr w' \<longrightarrow>
      length (students w') = length (students w) \<and>
      map name (students w') = map name (students w) \<and>
      (\<forall>j. j \<noteq> i \<longrightarrow> students w' ! j = students w ! j)) \<and>
   (stdin w = line # ts @ d # rest \<and> find_student_ref (students w) line = Some i \<and>
    (\<forall>t\<in>set ts. \<not> is_done t) \<and> is_done d \<longrightarrow>
      (\<exists>w'. add_grades_for_student w = Inr w'))"
proof (intro conjI impI)
  assume "students w = []"
  then show "add_grades_for_student w = Inr (w\<lparr>stdout := stdout w @ [EmptyRegistry]\<rparr>)"
    by (simp add: add_grades_for_student_def print_def)
next
  assume a: "students w \<noteq> [] \<and> stdin w = line # inp \<and> find_student (students w) line = None"
  then have "find_student_ref (students w) line = None"
    by (simp add: find_student_ref_None)
  with a show "add_grades_for_student w =
        Inr (w\<lparr>stdin := inp, stdout := stdout w @ [StudentNotFound (strip line)]\<rparr>)"
    by (simp add: add_grades_for_student_def input_def print_def find_student_ref_strip)
next
  assume a: "stdin w = line # inp \<and> find_student_ref (students w) line = Some i \<and>
    add_grades_for_student w = Inr w'"
  then have i: "i < length (students w)" by (blast dest: find_student_ref_bound)
  then have ne: "students w \<noteq> []" by auto
  from a ne obtain r where "grade_loop i (students w) inp (stdout w) = Inr r"
    by (auto simp: add_grades_for_student_def input_def find_student_ref_strip
          split: sum.splits)
  then obtain ts d rest where inp: "inp = ts @ d # rest" "\<forall>t\<in>set ts. \<not> is_done t" "is_done d"
    using grade_loop_returns by blast
  have "students w' = add_to i (List.map_filter accepted ts) (students w)"
    using a add_grades_for_student_done[of w line ts d rest i] inp by simp
  then have frame: "length (students w') = length (students w)"
    "\<forall>j. j \<noteq> i \<longrightarrow> students w' ! j = students w ! j"
    "name (students w' ! i) = name (students w ! i)"
    using i by (simp_all add: add_to_frame)
  have "map name (students w') = map name (students w)"
  proof (rule nth_equalityI)
    show "length (map name (students w')) = length (map name (students w))"
      using frame(1) by simp
  next
    fix j assume "j < length (map name (students w'))"
    then have "j < length (students w)" using frame(1) by simp
    then show "map name (students w') ! j = map name (students w) ! j"
      using frame by (cases "j = i") simp_all
  qed
  then show "length (students w') = length (students w)"
    "map name (students w') = map name (students w)"
    "\<forall>j. j \<noteq> i \<longrightarrow> students w' ! j = students w ! j"
    using frame by simp_all
next
  assume "stdin w = line # ts @ d # rest \<and> find_student_ref (students w) line = Some i \<and>
    (\<forall>t\<in>set ts. \<not> is_done t) \<and> is_done d"
  then show "\<exists>w'. add_grades_for_student w = Inr w'"
    using add_grades_for_student_done[of w line ts d rest i] by simp
qed


theorem add_grades_for_student_frame_witness:
  "add_grades_for_student \<lparr>students = [], stdin = [''x''], stdout = []\<rparr>
     = Inr \<lparr>students = [], stdin = [''x''], stdout = [EmptyRegistry]\<rparr> \<and>
   find_student [\<lparr>name = ''Ann'', grades = [90]\<rparr>, \<lparr>name = ''Bob'', grades = []\<rparr>] '' Eve''
     = None \<and>
   add_grades_for_student
     \<lparr>students = [\<lparr>name = ''Ann'', grades = [90]\<rparr>, \<lparr>name = ''Bob'', grades = []\<rparr>],
      stdin = ['' Eve'', ''70''], stdout = []\<rparr>
     = Inr \<lparr>students = [\<lparr>name = ''Ann'', grades = [90]\<rparr>, \<lparr>name = ''Bob'', grades = []\<rparr>],
            stdin = [''70''], stdout = [StudentNotFound ''Eve'']\<rparr> \<and>
   find_student_ref [\<lparr>name = ''Ann'', grades = [90]\<rparr>, \<lparr>name = ''Bob'', grades = []\<rparr>] ''bob''
     = Some 1 \<and>
   add_grades_for_student
     \<lparr>students = [\<lparr>name = ''Ann'', grades = [90]\<rparr>, \<lparr>name = ''Bob'', grades = []\<rparr>],
      stdin = [''bob'', ''70'', ''done''], stdout = []\<rparr>
     = Inr \<lparr>students = [\<lparr>name = ''Ann'', grades = [90]\<rparr>, \<lparr>name = ''Bob'', grades = [70]\<rparr>],
            stdin = [], stdout = [GradesUpdated ''Bob'' 1]\<rparr> \<and>
   map name [\<lparr>name = ''Ann'', grades = [90]\<rparr>, \<lparr>name = ''Bob'', grades = [70]\<rparr>]
     = map name [\<lparr>name = ''Ann'', grades = [90]\<rparr>, \<lparr>name = ''Bob'', grades = []\<rparr>]"
proof -
  let ?sts = "[\<lparr>name = ''Ann'', grades = [90]\<rparr>, \<lparr>name = ''Bob'', grades = []\<rparr>]"
  let ?sts' = "[\<lparr>name = ''Ann'', grades = [90]\<rparr>, \<lparr>name = ''Bob'', grades = [70]\<rparr>]"
  let ?w = "\<lparr>students = ?sts, stdin = [''bob'', ''70'', ''done''], stdout = []\<rparr>"
  let ?w' = "\<lparr>students = ?sts', stdin = [], stdout = [GradesUpdated ''Bob'' 1]\<rparr>"
  have s: "strip '' Eve'' = ''Eve''" by code_simp
  have none: "find_student ?sts '' Eve'' = None" by code_simp
  have ref: "find_student_ref ?sts ''bob'' = Some 1" by code_simp
  have run: "add_grades_for_student ?w = Inr ?w'" by code_simp
  have "add_grades_for_student \<lparr>students = [], stdin = [''x''], stdout = []\<rparr>
     = Inr \<lparr>students = [], stdin = [''x''], stdout = [EmptyRegistry]\<rparr>"
    using add_grades_for_student_frame[where w = "\<lparr>students = [], stdin = [''x''], stdout = []\<rparr>"]
    by simp
  moreover have "add_grades_for_student \<lparr>students = ?sts, stdin = ['' Eve'', ''70''], stdout = []\<rparr>
     = Inr \<lparr>students = ?sts, stdin = [''70''], stdout = [StudentNotFound ''Eve'']\<rparr>"
    using add_grades_for_student_frame[where
        w = "\<lparr>students = ?sts, stdin = ['' Eve'', ''70''], stdout = []\<rparr>"
        and line = "'' Eve''" and inp = "[''70'']"] none s
    by simp
  moreover have "map name (students ?w') = map name (students ?w)"
    using add_grades_for_student_frame[where w = ?w and line = "''bob''"
        and inp = "[''70'', ''done'']" and i = 1 and w' = ?w'] ref run
    by simp
  ultimately show ?thesis using none ref run by simp
qed

subsection \<open>Invariants of the registry\<close>

lemma accepted_range: "accepted t = Some g \<Longrightarrow> 0 \<le> g \<and> g \<le> 100"
  by (auto simp: accepted_def split: option.splits if_splits)

lemma map_filter_accepted_range: "\<forall>g\<in>set (List.map_filter accepted ts). 0 \<le> g \<and> g \<le> 100"
  by (auto simp: List.map_filter_def dest: accepted_range)

lemma add_to_beyond: "\<not> i < length sts \<Longrightarrow> add_to i gs sts = sts"
  unfolding add_to_def by (rule list_update_beyond) simp

lemma map_name_add_to: "map name (add_to i gs sts) = map name sts"
proof (cases "i < length sts")
  case True
  then have "(map name sts)[i := name (sts ! i)] = map name sts"
    by (simp add: list_update_same_conv)
  then show ?thesis by (simp add: add_to_def map_update)
next
  case False
  then show ?thesis by (simp add: add_to_beyond)
qed

lemma grades_in_range_add_to:
  assumes "grades_in_range sts" and "\<forall>g\<in>set gs. 0 \<le> g \<and> g \<le> 100"
  shows "grades_in_range (add_to i gs sts)"
proof (cases "i < length sts")
  case False
  then have "add_to i gs sts = sts" by (rule add_to_beyond)
  then show ?thesis using assms(1) by simp
next
  case True
  have "\<forall>g\<in>set (grades s). 0 \<le> g \<and> g \<le> 100" if "s \<in> set (add_to i gs sts)" for s
  proof -
    from that have "s = (sts ! i)\<lparr>grades := grades (sts ! i) @ gs\<rparr> \<or> s \<in> set sts"
      unfolding add_to_def by (auto dest: set_update_subset_insert[THEN subsetD])
    moreover have "sts ! i \<in> set sts" using True by simp
    ultimately show ?thesis using assms by (auto simp: grades_in_range_def)
  qed
  then show ?thesis by (simp add: grades_in_range_def)
qed

lemma names_trimmed_map: "names_trimmed sts \<longleftrightarrow> (\<forall>n\<in>set (map name sts). strip n = n)"
  by (simp add: names_trimmed_def)

lemma names_unique_map: "names_unique sts \<longleftrightarrow> distinct (map normalized_name (map name sts))"
  by (simp add: names_unique_def comp_def)

lemma registry_inv_add_to:
  assumes "registry_inv sts" and "\<forall>g\<in>set gs. 0 \<le> g \<and> g \<le> 100"
  shows "registry_inv (add_to i gs sts)"
  using assms grades_in_range_add_to[of sts gs i]
  unfolding registry_inv_def names_trimmed_map names_unique_map map_name_add_to
  by simp

lemma add_new_student_inv:
  assumes "add_new_student w = Inr w'" and "registry_inv (students w)"
  shows "registry_inv (students w')"
proof (cases "stdin w")
  case Nil
  with assms(1) show ?thesis by (simp add: add_new_student_def input_def)
next
  case (Cons line rest)
  let ?new = "\<lparr>name = strip line, grades = []\<rparr>"
  show ?thesis
  proof (cases "strip line = [] \<or> (\<exists>s\<in>set (students w). lower (name s) = normalized_name line)")
    case True
    then have "students w' = students w"
      using assms(1) add_new_student_code[OF Cons] by (auto split: if_splits)
    with assms(2) show ?thesis by simp
  next
    case False
    then have w': "students w' = students w @ [?new]"
      using assms(1) add_new_student_code[OF Cons] by auto
    have tr: "names_trimmed (students w)" and un: "names_unique (students w)"
      and gr: "grades_in_range (students w)"
      using assms(2) by (simp_all add: registry_inv_def)
    have "normalized_name (name s) \<noteq> normalized_name (strip line)"
      if "s \<in> set (students w)" for s
    proof -
      from that tr have "normalized_name (name s) = lower (name s)"
        by (simp add: names_trimmed_def normalized_name_def)
      with that False show ?thesis by (auto simp: normalized_name_strip)
    qed
    then have "normalized_name (strip line)
                 \<notin> set (map (\<lambda>s. normalized_name (name s)) (students w))"
      by force
    then have "names_unique (students w @ [?new])"
      using un by (simp add: names_unique_def)
    moreover have "names_trimmed (students w @ [?new])"
      using tr by (simp add: names_trimmed_def strip_idem)
    moreover have "grades_in_range (students w @ [?new])"
      using gr by (simp add: grades_in_range_def)
    ultimately show ?thesis unfolding w' by (simp add: registry_inv_def)
  qed
qed

lemma add_grades_for_student_cases:
  assumes "add_grades_for_student w = Inr w'"
  shows "students w' = students w \<or>
         (\<exists>i ts. students w' = add_to i (List.map_filter accepted ts) (students w))"
proof (cases "students w = []")
  case True
  with assms show ?thesis by (auto simp: add_grades_for_student_def print_def)
next
  case False
  show ?thesis
  proof (cases "stdin w")
    case Nil
    with False assms show ?thesis by (simp add: add_grades_for_student_def input_def)
  next
    case (Cons line inp)
    show ?thesis
    proof (cases "find_student_ref (students w) line")
      case None
      with False Cons assms show ?thesis
        by (auto simp: add_grades_for_student_def input_def print_def find_student_ref_strip)
    next
      case (Some i)
      from False Cons Some assms obtain r where
        "grade_loop i (students w) inp (stdout w) = Inr r"
        by (auto simp: add_grades_for_student_def input_def find_student_ref_strip
              split: sum.splits)
      then obtain ts d rest where
        "inp = ts @ d # rest" "\<forall>t\<in>set ts. \<not> is_done t" "is_done d"
        using grade_loop_returns by blast
      with Cons Some assms
      have "students w' = add_to i (List.map_filter accepted ts) (students w)"
        using add_grades_for_student_done[of w line ts d rest i] by auto
      then show ?thesis by blast
    qed
  qed
qed

lemma add_grades_for_student_inv:
  assumes "add_grades_for_student w = Inr w'" and "registry_inv (students w)"
  shows "registry_inv (students w')"
  using add_grades_for_student_cases[OF assms(1)] assms(2)
    registry_inv_add_to[OF assms(2) map_filter_accepted_range]
  by auto

lemma reachable_inv: "reachable sts \<Longrightarrow> registry_inv sts"
proof (induction rule: reachable.induct)
  case empty
  show ?case
    by (simp add: registry_inv_def grades_in_range_def names_unique_def names_trimmed_def)
next
  case (add_student w w')
  then show ?case by (blast intro: add_new_student_inv)
next
  case (add_grades w w')
  then show ?case by (blast intro: add_grades_for_student_inv)
qed

text \<open>
  C5: in every registry reachable from the empty registry by calls of
  \<^verbatim>\<open>add_new_student\<close> and \<^verbatim>\<open>add_grades_for_student\<close>, every grade of every student
  lies between 0 and 100 inclusive, and no two records have the same normalized name.
\<close>

theorem reachable_registry_invariant:
  assumes "reachable sts"
  shows "(\<forall>s\<in>set sts. \<forall>g\<in>set (grades s). 0 \<le> g \<and> g \<le> 100) \<and>
         distinct (map (\<lambda>s. normalized_name (name s)) sts)"
  using reachable_inv[OF assms]
  by (simp add: registry_inv_def grades_in_range_def names_unique_def)


theorem reachable_registry_invariant_witness:
  "reachable [\<lparr>name = ''Ann'', grades = [50]\<rparr>, \<lparr>name = ''Bob'', grades = []\<rparr>] \<and>
   list_all (\<lambda>s. list_all (\<lambda>g. 0 \<le> g \<and> g \<le> 100) (grades s))
     [\<lparr>name = ''Ann'', grades = [50]\<rparr>, \<lparr>name = ''Bob'', grades = []\<rparr>] \<and>
   distinct (map (\<lambda>s. normalized_name (name s))
     [\<lparr>name = ''Ann'', grades = [50]\<rparr>, \<lparr>name = ''Bob'', grades = []\<rparr>])"
proof -
  let ?r1 = "[\<lparr>name = ''Ann'', grades = []\<rparr>]"
  let ?r2 = "[\<lparr>name = ''Ann'', grades = [50]\<rparr>]"
  let ?r3 = "[\<lparr>name = ''Ann'', grades = [50]\<rparr>, \<lparr>name = ''Bob'', grades = []\<rparr>]"
  let ?w0 = "\<lparr>students = [], stdin = ['' Ann ''], stdout = []\<rparr>"
  let ?w1 = "\<lparr>students = ?r1, stdin = [''ann'', ''50'', ''150'', ''x'', ''done''], stdout = []\<rparr>"
  let ?w2 = "\<lparr>students = ?r2, stdin = [''Bob''], stdout = []\<rparr>"
  have s1: "add_new_student ?w0 = Inr \<lparr>students = ?r1, stdin = [], stdout = [StudentAdded ''Ann'']\<rparr>"
    by code_simp
  have s2: "add_grades_for_student ?w1 =
      Inr \<lparr>students = ?r2, stdin = [], stdout = [OutOfRange, InvalidFormat, GradesUpdated ''Ann'' 1]\<rparr>"
    by code_simp
  have s3: "add_new_student ?w2 = Inr \<lparr>students = ?r3, stdin = [], stdout = [StudentAdded ''Bob'']\<rparr>"
    by code_simp
  have "reachable (students ?w0)" by (simp add: reachable.empty)
  from reachable.add_student[OF this s1] have "reachable (students ?w1)" by simp
  from reachable.add_grades[OF this s2] have "reachable (students ?w2)" by simp
  from reachable.add_student[OF this s3] have r: "reachable ?r3" by simp
  from reachable_registry_invariant[OF r] show ?thesis
    using r by (simp add: list_all_iff)
qed

subsection \<open>The report\<close>

lemma foldl_plus: "foldl (+) a xs = a + sum_list xs" for a :: int
  by (induction xs arbitrary: a) simp_all

lemma py_sum_eq: "py_sum xs = sum_list xs"
  by (simp add: py_sum_def foldl_plus)

lemma py_truediv_average:
  "grades s \<noteq> [] \<Longrightarrow>
   py_truediv (py_sum (grades s)) (int (length (grades s))) =
     (if float_overflow (exact_average s) then Inl OverflowError else Inr (float_average s))"
  by (simp add: py_truediv_def py_sum_eq exact_average_def float_average_def)

lemma try_average_Nil: "try_average [] = Inr None"
  by (simp add: try_average_def py_truediv_def)

lemma try_average_grades:
  "grades s \<noteq> [] \<Longrightarrow>
   try_average (grades s) =
     (if float_overflow (exact_average s) then Inl OverflowError
      else Inr (Some (float_average s)))"
  by (simp add: try_average_def py_truediv_average)

lemma report_loop_eq:
  assumes "averages_in_float_range sts"
  shows "report_loop sts avs out = Inr (avs @ defined_averages sts, out @ map report_line sts)"
  using assms
proof (induction sts arbitrary: avs out)
  case Nil
  then show ?case by (simp add: defined_averages_def)
next
  case (Cons s sts)
  have rest: "averages_in_float_range sts"
    using Cons.prems by (simp add: averages_in_float_range_def)
  show ?case
  proof (cases "grades s = []")
    case True
    then show ?thesis
      using Cons.IH[OF rest, of avs "out @ [AverageNA (name s)]"]
      by (simp add: try_average_Nil defined_averages_def report_line_def)
  next
    case False
    then have "\<not> float_overflow (exact_average s)"
      using Cons.prems by (simp add: averages_in_float_range_def)
    with False show ?thesis
      using Cons.IH[OF rest, of "avs @ [float_average s]"
          "out @ [Average (name s) (float_average s)]"]
      by (simp add: try_average_grades defined_averages_def report_line_def)
  qed
qed

lemma max_scan_Inr: "max_scan Inr a a xs = Inr (Max (insert a (set xs)))"
proof (induction xs arbitrary: a)
  case Nil
  then show ?case by simp
next
  case (Cons x xs)
  have m: "Max (insert a (set (x # xs))) = Max (insert (max a x) (set xs))"
  proof (cases "set xs = {}")
    case True
    then show ?thesis by simp
  next
    case False
    then show ?thesis by (simp add: max.assoc)
  qed
  show ?case
  proof (cases "x > a")
    case True
    then have "max a x = x" by simp
    with True Cons.IH[of x] m show ?thesis by simp
  next
    case False
    then have "max a x = a" by simp
    with False Cons.IH[of a] m show ?thesis by simp
  qed
qed

lemma min_scan_eq: "min_scan a xs = Min (insert a (set xs))"
proof (induction xs arbitrary: a)
  case Nil
  then show ?case by simp
next
  case (Cons x xs)
  have m: "Min (insert a (set (x # xs))) = Min (insert (min a x) (set xs))"
  proof (cases "set xs = {}")
    case True
    then show ?thesis by simp
  next
    case False
    then show ?thesis by (simp add: min.assoc)
  qed
  show ?case
  proof (cases "x < a")
    case True
    then have "min a x = x" by simp
    with True Cons.IH[of x] m show ?thesis by simp
  next
    case False
    then have "min a x = a" by simp
    with False Cons.IH[of a] m show ?thesis by simp
  qed
qed

lemma py_max_eq: "xs \<noteq> [] \<Longrightarrow> py_max xs = Inr (Max (set xs))"
  by (cases xs) (simp_all add: py_max_def py_max_key_def max_scan_Inr)

lemma py_min_eq: "xs \<noteq> [] \<Longrightarrow> py_min xs = Inr (Min (set xs))"
  by (cases xs) (simp_all add: py_min_def min_scan_eq)

text \<open>
  When no average overflows, the report printed by the code is the report of the
  specification, for every summation of floats.
\<close>

lemma show_report_eq:
  assumes "averages_in_float_range (students w)"
  shows "show_report fsum w = Inr (w\<lparr>stdout := stdout w @ report_output fsum (students w)\<rparr>)"
proof (cases "students w = []")
  case True
  then show ?thesis by (simp add: show_report_def report_output_def print_def)
next
  case False
  show ?thesis
  proof (cases "defined_averages (students w) = []")
    case True
    with False show ?thesis
      by (simp add: show_report_def report_output_def report_loop_eq[OF assms])
  next
    case avs: False
    then have "length (defined_averages (students w)) \<noteq> 0" by simp
    with False avs show ?thesis
      by (simp add: show_report_def report_output_def report_loop_eq[OF assms]
            py_max_eq py_min_eq float_div_len_def Let_def)
  qed
qed

lemma defined_averages_Nil_iff:
  "defined_averages sts = [] \<longleftrightarrow> (\<forall>s\<in>set sts. grades s = [])"
  by (auto simp: defined_averages_def filter_empty_conv)

text \<open>Grades between 0 and 100 give averages between 0 and 100.\<close>

lemma sum_list_bounds:
  "\<forall>g\<in>set gs. 0 \<le> g \<and> g \<le> 100 \<Longrightarrow> 0 \<le> sum_list gs \<and> sum_list gs \<le> 100 * int (length gs)"
  by (induction gs) auto

lemma grades_in_range_float_range:
  assumes "grades_in_range sts"
  shows "averages_in_float_range sts"
proof -
  have "\<not> float_overflow (exact_average s)" if s: "s \<in> set sts" and ne: "grades s \<noteq> []" for s
  proof -
    let ?n = "length (grades s)"
    have n: "0 < ?n" using ne by simp
    have b: "0 \<le> sum_list (grades s) \<and> sum_list (grades s) \<le> 100 * int ?n"
      using assms s by (intro sum_list_bounds) (auto simp: grades_in_range_def)
    then have "(of_int (sum_list (grades s)) :: rat) \<le> of_int (100 * int ?n)"
      by (simp only: of_int_le_iff)
    then have "(of_int (sum_list (grades s)) :: rat) \<le> 100 * of_nat ?n" by simp
    then have up: "exact_average s \<le> 100"
      using n by (simp add: exact_average_def divide_le_eq)
    have lo: "0 \<le> exact_average s"
      using b by (simp add: exact_average_def)
    have "\<bar>exact_average s\<bar> \<le> 100" using up lo by simp
    moreover have "(100 :: rat) < 2 ^ 1024 - 2 ^ 970" by simp
    ultimately show ?thesis by (simp add: float_overflow_def)
  qed
  then show ?thesis by (auto simp: averages_in_float_range_def)
qed

lemma reachable_float_range: "reachable sts \<Longrightarrow> averages_in_float_range sts"
  using reachable_inv grades_in_range_float_range by (auto simp: registry_inv_def)



text \<open>Evaluation of the float operations on numbers far from the overflow threshold.\<close>

lemma small_no_overflow: "\<bar>x\<bar> \<le> 1000000000 \<Longrightarrow> \<not> float_overflow x"
proof -
  have "(1000000000 :: rat) < 2 ^ 1024 - 2 ^ 970" by simp
  then show "\<bar>x\<bar> \<le> 1000000000 \<Longrightarrow> \<not> float_overflow x"
    by (simp add: float_overflow_def)
qed

lemma float_add_small:
  "\<bar>a + b\<bar> \<le> 1000000000 \<Longrightarrow>
   float_add (Finite a) (Finite b) = Finite (round_double (a + b))"
  by (simp add: float_add_def small_no_overflow)

text \<open>
  C1, as stated, fails: the averages are floats, and the overall average is the rounded
  quotient of their rounded sum. With three students of average 1/10 (grades nine times
  0 and once 1) the overall average printed is greater than each of the three equal
  averages, hence not their arithmetic mean.
\<close>

theorem show_report_mean_rounding_counterexample:
  "show_report plain_float_sum
     \<lparr>students = [\<lparr>name = ''A'', grades = [0, 0, 0, 0, 0, 0, 0, 0, 0, 1]\<rparr>,
                  \<lparr>name = ''B'', grades = [0, 0, 0, 0, 0, 0, 0, 0, 0, 1]\<rparr>,
                  \<lparr>name = ''C'', grades = [0, 0, 0, 0, 0, 0, 0, 0, 0, 1]\<rparr>],
      stdin = [], stdout = []\<rparr>
   = Inr \<lparr>students = [\<lparr>name = ''A'', grades = [0, 0, 0, 0, 0, 0, 0, 0, 0, 1]\<rparr>,
                  \<lparr>name = ''B'', grades = [0, 0, 0, 0, 0, 0, 0, 0, 0, 1]\<rparr>,
                  \<lparr>name = ''C'', grades = [0, 0, 0, 0, 0, 0, 0, 0, 0, 1]\<rparr>],
          stdin = [],
          stdout = [ReportHeader,
                    Average ''A'' (3602879701896397 / 36028797018963968),
                    Average ''B'' (3602879701896397 / 36028797018963968),
                    Average ''C'' (3602879701896397 / 36028797018963968),
                    Rule,
                    MaxAverage (3602879701896397 / 36028797018963968),
                    MinAverage (3602879701896397 / 36028797018963968),
                    OverallAverage (Finite (7205759403792795 / 72057594037927936)),
                    RuleEnd]\<rparr> \<and>
   (3602879701896397 / 36028797018963968 + 3602879701896397 / 36028797018963968 +
      3602879701896397 / 36028797018963968) / 3
     = (3602879701896397 / 36028797018963968 :: rat) \<and>
   (3602879701896397 / 36028797018963968 :: rat) < 7205759403792795 / 72057594037927936"
proof -
  let ?g = "[0, 0, 0, 0, 0, 0, 0, 0, 0, 1 :: int]"
  let ?sts = "[\<lparr>name = ''A'', grades = ?g\<rparr>, \<lparr>name = ''B'', grades = ?g\<rparr>,
               \<lparr>name = ''C'', grades = ?g\<rparr>]"
  let ?w = "\<lparr>students = ?sts, stdin = [], stdout = []\<rparr>"
  have "grades_in_range ?sts" by (simp add: grades_in_range_def)
  then have ok: "averages_in_float_range (students ?w)"
    by (simp add: grades_in_range_float_range)
  have av: "float_average \<lparr>name = n, grades = ?g\<rparr> = 3602879701896397 / 36028797018963968"
    for n
  proof -
    have "round_double (1 / 10) = 3602879701896397 / 36028797018963968" by code_simp
    then show ?thesis by (simp add: float_average_def exact_average_def)
  qed
  have s1: "float_add (Finite 0) (Finite (3602879701896397 / 36028797018963968))
      = Finite (3602879701896397 / 36028797018963968)"
  proof -
    have "round_double (0 + 3602879701896397 / 36028797018963968)
        = 3602879701896397 / 36028797018963968"
      by code_simp
    moreover have "\<bar>0 + 3602879701896397 / 36028797018963968 :: rat\<bar> \<le> 1000000000"
      by simp
    ultimately show ?thesis by (simp only: float_add_small)
  qed
  have s2: "float_add (Finite (3602879701896397 / 36028797018963968))
        (Finite (3602879701896397 / 36028797018963968))
      = Finite (3602879701896397 / 18014398509481984)"
  proof -
    have "round_double (3602879701896397 / 36028797018963968
            + 3602879701896397 / 36028797018963968)
        = 3602879701896397 / 18014398509481984"
      by code_simp
    moreover have "\<bar>3602879701896397 / 36028797018963968
        + 3602879701896397 / 36028797018963968 :: rat\<bar> \<le> 1000000000" by simp
    ultimately show ?thesis by (simp only: float_add_small)
  qed
  have s3: "float_add (Finite (3602879701896397 / 18014398509481984))
        (Finite (3602879701896397 / 36028797018963968))
      = Finite (1351079888211149 / 4503599627370496)"
  proof -
    have "round_double (3602879701896397 / 18014398509481984
            + 3602879701896397 / 36028797018963968)
        = 1351079888211149 / 4503599627370496"
      by code_simp
    moreover have "\<bar>3602879701896397 / 18014398509481984
        + 3602879701896397 / 36028797018963968 :: rat\<bar> \<le> 1000000000" by simp
    ultimately show ?thesis by (simp only: float_add_small)
  qed
  have sum: "plain_float_sum [3602879701896397 / 36028797018963968,
        3602879701896397 / 36028797018963968, 3602879701896397 / 36028797018963968]
      = Finite (1351079888211149 / 4503599627370496)"
    by (simp only: plain_float_sum_def list.map foldl.simps s1 s2 s3)
  have quot: "float_quotient (Finite (1351079888211149 / 4503599627370496)) 3
      = Finite (7205759403792795 / 72057594037927936)"
    by code_simp
  have "report_output plain_float_sum ?sts =
      [ReportHeader,
       Average ''A'' (3602879701896397 / 36028797018963968),
       Average ''B'' (3602879701896397 / 36028797018963968),
       Average ''C'' (3602879701896397 / 36028797018963968),
       Rule,
       MaxAverage (3602879701896397 / 36028797018963968),
       MinAverage (3602879701896397 / 36028797018963968),
       OverallAverage (Finite (7205759403792795 / 72057594037927936)),
       RuleEnd]"
    by (simp add: report_output_def defined_averages_def report_line_def av sum
          quot[unfolded numeral_3_eq_3])
  then have "show_report plain_float_sum ?w = Inr (?w\<lparr>stdout :=
      [ReportHeader,
       Average ''A'' (3602879701896397 / 36028797018963968),
       Average ''B'' (3602879701896397 / 36028797018963968),
       Average ''C'' (3602879701896397 / 36028797018963968),
       Rule,
       MaxAverage (3602879701896397 / 36028797018963968),
       MinAverage (3602879701896397 / 36028797018963968),
       OverallAverage (Finite (7205759403792795 / 72057594037927936)),
       RuleEnd]\<rparr>)"
    unfolding show_report_eq[OF ok] by simp
  then show ?thesis by simp
qed

text \<open>
  C1, amended: for every registry in which at least one student has a grade and every
  average is within the range of a float, and for every summation of floats, the maximum
  and the minimum printed by \<^verbatim>\<open>show_report\<close> are those of the per-student averages (each the
  float nearest to the sum of the grades divided by their number), taken over exactly
  the students that have a grade, and the overall average printed is the float quotient
  of the float sum of these same averages by their number: an average of averages, not
  of all grades pooled. For A=[100] and B=[0,0,0,100] it is 62.5 (the mean of all five
  grades is 40).
\<close>

theorem show_report_average_of_averages:
  assumes "\<exists>s\<in>set (students w). grades s \<noteq> []"
    and "averages_in_float_range (students w)"
  shows "\<exists>avs. avs = map float_average (filter (\<lambda>s. grades s \<noteq> []) (students w)) \<and>
     avs \<noteq> [] \<and>
     show_report fsum w =
       Inr (w\<lparr>stdout := stdout w @ ReportHeader # map report_line (students w) @
                [Rule, MaxAverage (Max (set avs)), MinAverage (Min (set avs)),
                 OverallAverage (float_quotient (fsum avs) (length avs)), RuleEnd]\<rparr>)"
proof -
  have ne: "students w \<noteq> []" using assms(1) by auto
  have avs: "defined_averages (students w) \<noteq> []"
    using assms(1) by (simp add: defined_averages_Nil_iff)
  show ?thesis
    using ne avs unfolding show_report_eq[OF assms(2)]
    by (simp add: report_output_def Let_def defined_averages_def)
qed



theorem show_report_average_of_averages_witness:
  "(\<exists>s\<in>set [\<lparr>name = ''A'', grades = [100]\<rparr>, \<lparr>name = ''B'', grades = [0, 0, 0, 100]\<rparr>,
               \<lparr>name = ''C'', grades = []\<rparr>]. grades s \<noteq> []) \<and>
   averages_in_float_range
     [\<lparr>name = ''A'', grades = [100]\<rparr>, \<lparr>name = ''B'', grades = [0, 0, 0, 100]\<rparr>,
      \<lparr>name = ''C'', grades = []\<rparr>] \<and>
   show_report plain_float_sum
     \<lparr>students = [\<lparr>name = ''A'', grades = [100]\<rparr>, \<lparr>name = ''B'', grades = [0, 0, 0, 100]\<rparr>,
                  \<lparr>name = ''C'', grades = []\<rparr>],
      stdin = [], stdout = []\<rparr>
   = Inr \<lparr>students = [\<lparr>name = ''A'', grades = [100]\<rparr>, \<lparr>name = ''B'', grades = [0, 0, 0, 100]\<rparr>,
                  \<lparr>name = ''C'', grades = []\<rparr>],
          stdin = [],
          stdout = [ReportHeader, Average ''A'' 100, Average ''B'' 25, AverageNA ''C'', Rule,
                    MaxAverage 100, MinAverage 25, OverallAverage (Finite 62.5), RuleEnd]\<rparr> \<and>
   of_int (sum_list ([100] @ [0, 0, 0, 100])) / of_nat (length ([100] @ [0, 0, 0, 100 :: int]))
     = (40 :: rat)"
proof -
  let ?sts = "[\<lparr>name = ''A'', grades = [100]\<rparr>, \<lparr>name = ''B'', grades = [0, 0, 0, 100]\<rparr>,
               \<lparr>name = ''C'', grades = []\<rparr>]"
  let ?w = "\<lparr>students = ?sts, stdin = [], stdout = []\<rparr>"
  have h: "\<exists>s\<in>set (students ?w). grades s \<noteq> []" by simp
  have "grades_in_range ?sts" by (simp add: grades_in_range_def)
  then have r: "averages_in_float_range ?sts" by (rule grades_in_range_float_range)
  then have r': "averages_in_float_range (students ?w)" by simp
  have rd: "round_double 100 = 100" "round_double 25 = 25"
    "round_double (0 + 100) = 100" "round_double (100 + 25) = 125"
    by code_simp+
  have a: "map float_average (filter (\<lambda>s. grades s \<noteq> []) (students ?w)) = [100, 25]"
    by (simp add: float_average_def exact_average_def rd)
  have l: "map report_line (students ?w) = [Average ''A'' 100, Average ''B'' 25, AverageNA ''C'']"
    by (simp add: report_line_def float_average_def exact_average_def rd)
  have m: "Max (set [100, 25 :: rat]) = 100" "Min (set [100, 25 :: rat]) = 25"
    by simp_all
  have "float_add (Finite 0) (Finite 100) = Finite 100"
    "float_add (Finite 100) (Finite 25) = Finite 125"
    by (simp_all only: float_add_small rd)
  then have s: "plain_float_sum [100, 25] = Finite 125"
    by (simp only: plain_float_sum_def list.map foldl.simps)
  have "float_quotient (Finite 125) 2 = Finite 62.5"
    by code_simp
  then have q: "float_quotient (plain_float_sum [100, 25]) (length [100, 25 :: rat]) = Finite 62.5"
    by (simp add: s numeral_2_eq_2)
  from show_report_average_of_averages[OF h r', of plain_float_sum]
  have "show_report plain_float_sum ?w =
       Inr (?w\<lparr>stdout := stdout ?w @ ReportHeader # map report_line (students ?w) @
                [Rule, MaxAverage (Max (set [100, 25])), MinAverage (Min (set [100, 25])),
                 OverallAverage (float_quotient (plain_float_sum [100, 25])
                   (length [100, 25 :: rat])), RuleEnd]\<rparr>)"
    unfolding a by blast
  then have "show_report plain_float_sum ?w = Inr \<lparr>students = ?sts, stdin = [],
          stdout = [ReportHeader, Average ''A'' 100, Average ''B'' 25, AverageNA ''C'', Rule,
                    MaxAverage 100, MinAverage 25, OverallAverage (Finite 62.5), RuleEnd]\<rparr>"
    unfolding l m q by simp
  then show ?thesis using r by simp
qed

text \<open>
  C6, as stated, fails: the division by the length of an empty list is attempted (and
  raises \<^verbatim>\<open>ZeroDivisionError\<close>, which is caught), and the report is not total: an average
  beyond the range of a float raises \<^verbatim>\<open>OverflowError\<close>, which is not caught, so the report
  ends before the student without grades is reported.
\<close>

theorem show_report_overflow_counterexample:
  "show_report plain_float_sum
     \<lparr>students = [\<lparr>name = ''A'', grades = [10 ^ 400]\<rparr>, \<lparr>name = ''B'', grades = []\<rparr>],
      stdin = [], stdout = []\<rparr>
   = Inl OverflowError \<and>
   py_truediv (py_sum []) (int (length ([] :: int list))) = Inl ZeroDivisionError"
proof -
  have "float_overflow (of_int (10 ^ 400) / of_int (int (length [10 ^ 400 :: int])))"
    by (simp add: float_overflow_def)
  then have "try_average [10 ^ 400] = Inl OverflowError"
    by (simp add: try_average_def py_truediv_def py_sum_def)
  then show ?thesis
    by (simp add: show_report_def py_truediv_def py_sum_def)
qed

text \<open>
  C6, amended: for every registry in which every average is within the range of a float
  (as whenever the grades are between 0 and 100), \<^verbatim>\<open>show_report\<close> returns. The division
  by the length of an empty grade list is attempted and its \<^verbatim>\<open>ZeroDivisionError\<close> is
  caught: the line of a student without grades is \<open>AverageNA\<close>, never an average of 0;
  the line of a student with grades is the quotient; and when no student has a grade,
  no aggregate is computed: the report ends with \<open>NoGradesYet\<close>.
\<close>

theorem show_report_total:
  assumes "averages_in_float_range (students w)"
  shows "\<exists>w'. show_report fsum w = Inr w' \<and>
     stdout w' = stdout w @ report_output fsum (students w) \<and>
     py_truediv (py_sum []) (int (length ([] :: int list))) = Inl ZeroDivisionError \<and>
     try_average [] = Inr None \<and>
     (\<forall>i<length (students w). grades (students w ! i) = [] \<longrightarrow>
        report_output fsum (students w) ! Suc i = AverageNA (name (students w ! i))) \<and>
     (\<forall>i<length (students w). grades (students w ! i) \<noteq> [] \<longrightarrow>
        report_output fsum (students w) ! Suc i =
          Average (name (students w ! i)) (float_average (students w ! i))) \<and>
     (students w \<noteq> [] \<and> (\<forall>s\<in>set (students w). grades s = []) \<longrightarrow>
        report_output fsum (students w) =
          ReportHeader # map (\<lambda>s. AverageNA (name s)) (students w) @ [NoGradesYet, RuleEnd])"
proof -
  have line: "report_output fsum (students w) ! Suc i = report_line (students w ! i)"
    if "i < length (students w)" for i
  proof -
    from that have "students w \<noteq> []" by auto
    then show ?thesis using that by (simp add: report_output_def nth_append)
  qed
  have none: "report_output fsum (students w) =
          ReportHeader # map (\<lambda>s. AverageNA (name s)) (students w) @ [NoGradesYet, RuleEnd]"
    if "students w \<noteq> []" and "\<forall>s\<in>set (students w). grades s = []"
  proof -
    have "defined_averages (students w) = []"
      using that(2) by (simp add: defined_averages_Nil_iff)
    moreover have "map report_line (students w) = map (\<lambda>s. AverageNA (name s)) (students w)"
      using that(2) by (simp add: report_line_def)
    ultimately show ?thesis using that(1) by (simp add: report_output_def)
  qed
  have z: "py_truediv (py_sum []) (int (length ([] :: int list))) = Inl ZeroDivisionError"
    by (simp add: py_truediv_def)
  show ?thesis
    unfolding show_report_eq[OF assms] using line none z
    by (simp add: report_line_def try_average_Nil)
qed

theorem show_report_total_witness:
  "averages_in_float_range [\<lparr>name = ''Ann'', grades = []\<rparr>, \<lparr>name = ''Bob'', grades = []\<rparr>] \<and>
   show_report plain_float_sum
     \<lparr>students = [\<lparr>name = ''Ann'', grades = []\<rparr>, \<lparr>name = ''Bob'', grades = []\<rparr>],
      stdin = [], stdout = []\<rparr>
   = Inr \<lparr>students = [\<lparr>name = ''Ann'', grades = []\<rparr>, \<lparr>name = ''Bob'', grades = []\<rparr>],
          stdin = [],
          stdout = [ReportHeader, AverageNA ''Ann'', AverageNA ''Bob'', NoGradesYet, RuleEnd]\<rparr>"
proof -
  let ?sts = "[\<lparr>name = ''Ann'', grades = []\<rparr>, \<lparr>name = ''Bob'', grades = []\<rparr>]"
  let ?w = "\<lparr>students = ?sts, stdin = [], stdout = []\<rparr>"
  have r: "averages_in_float_range (students ?w)"
    by (simp add: averages_in_float_range_def)
  obtain w' where w': "show_report plain_float_sum ?w = Inr w'"
    "stdout w' = stdout ?w @ report_output plain_float_sum (students ?w)"
    "students ?w \<noteq> [] \<and> (\<forall>s\<in>set (students ?w). grades s = []) \<longrightarrow>
        report_output plain_float_sum (students ?w) =
          ReportHeader # map (\<lambda>s. AverageNA (name s)) (students ?w) @ [NoGradesYet, RuleEnd]"
    using show_report_total[OF r, of plain_float_sum] by blast
  have "stdout w' = [ReportHeader, AverageNA ''Ann'', AverageNA ''Bob'', NoGradesYet, RuleEnd]"
    using w'(2,3) by simp
  moreover have "students w' = ?sts \<and> stdin w' = []"
    using w'(1) by (auto simp: show_report_eq[OF r])
  ultimately have "w' = \<lparr>students = ?sts, stdin = [],
          stdout = [ReportHeader, AverageNA ''Ann'', AverageNA ''Bob'', NoGradesYet, RuleEnd]\<rparr>"
    by (cases w') simp
  with w'(1) r show ?thesis by simp
qed

subsection \<open>The top performer\<close>

text \<open>
  The scan of \<^verbatim>\<open>max\<close> returns the first item whose key is maximal: the items before it
  have a strictly smaller key, the items after it a key that is not greater.
\<close>

lemma max_scan_first_max:
  assumes "\<forall>x\<in>set xs. key x = Inr (f x)"
  shows "\<exists>pre r post. m # xs = pre @ r # post \<and>
           (\<forall>s\<in>set pre. f s < f r) \<and> (\<forall>s\<in>set post. f s \<le> f r) \<and>
           max_scan key m (f m) xs = Inr r"
  using assms
proof (induction xs arbitrary: m)
  case Nil
  have "[m] = [] @ m # []" by simp
  then show ?case by fastforce
next
  case (Cons x xs)
  have kx: "key x = Inr (f x)" and rest: "\<forall>y\<in>set xs. key y = Inr (f y)"
    using Cons.prems by simp_all
  show ?case
  proof (cases "f x > f m")
    case True
    from Cons.IH[OF rest, of x] obtain pre r post where
      d: "x # xs = pre @ r # post" and lt: "\<forall>s\<in>set pre. f s < f r"
      and le: "\<forall>s\<in>set post. f s \<le> f r" and run: "max_scan key x (f x) xs = Inr r"
      by blast
    have "f x \<le> f r"
    proof (cases pre)
      case Nil
      with d show ?thesis by simp
    next
      case (Cons p ps)
      with d have "x \<in> set pre" by simp
      with lt show ?thesis by auto
    qed
    with True have "f m < f r" by simp
    with lt have "\<forall>s\<in>set (m # pre). f s < f r" by simp
    moreover have "m # x # xs = (m # pre) @ r # post" using d by simp
    moreover have "max_scan key m (f m) (x # xs) = Inr r" using kx True run by simp
    ultimately show ?thesis using le by blast
  next
    case False
    from Cons.IH[OF rest, of m] obtain pre r post where
      d: "m # xs = pre @ r # post" and lt: "\<forall>s\<in>set pre. f s < f r"
      and le: "\<forall>s\<in>set post. f s \<le> f r" and run: "max_scan key m (f m) xs = Inr r"
      by blast
    have run': "max_scan key m (f m) (x # xs) = Inr r" using kx False run by simp
    show ?thesis
    proof (cases pre)
      case Nil
      with d have r: "r = m" and p: "post = xs" by simp_all
      have "m # x # xs = [] @ r # (x # post)" using r p by simp
      moreover have "\<forall>s\<in>set (x # post). f s \<le> f r" using le False r by auto
      ultimately show ?thesis using run' by fastforce
    next
      case (Cons p ps)
      with d have p: "p = m" and xs: "xs = ps @ r # post" by simp_all
      have "f m < f r" using lt Cons p by simp
      with False have "f x < f r" by simp
      then have "\<forall>s\<in>set (m # x # ps). f s < f r" using lt Cons p by simp
      moreover have "m # x # xs = (m # x # ps) @ r # post" using xs by simp
      ultimately show ?thesis using le run' by blast
    qed
  qed
qed


lemma filter_eq_appendD:
  assumes "filter P ys = pre @ r # post"
  shows "\<exists>us vs. ys = us @ r # vs \<and> filter P us = pre \<and> filter P vs = post \<and> P r"
  using assms
proof (induction ys arbitrary: pre)
  case Nil
  then show ?case by simp
next
  case (Cons y ys)
  show ?case
  proof (cases "P y")
    case False
    with Cons.prems have "filter P ys = pre @ r # post" by simp
    from Cons.IH[OF this] obtain us vs where
      "ys = us @ r # vs" "filter P us = pre" "filter P vs = post" "P r" by blast
    with False have "y # ys = (y # us) @ r # vs \<and> filter P (y # us) = pre \<and>
        filter P vs = post \<and> P r" by simp
    then show ?thesis by blast
  next
    case True
    with Cons.prems have eq: "y # filter P ys = pre @ r # post" by simp
    show ?thesis
    proof (cases pre)
      case Nil
      with eq True have "y # ys = [] @ r # ys \<and> filter P [] = pre \<and>
          filter P ys = post \<and> P r" by simp
      then show ?thesis by blast
    next
      case (Cons p ps)
      with eq have y: "y = p" and "filter P ys = ps @ r # post" by simp_all
      from Cons.IH[OF this(2)] obtain us vs where
        "ys = us @ r # vs" "filter P us = ps" "filter P vs = post" "P r" by blast
      with True y Cons have "y # ys = (y # us) @ r # vs \<and> filter P (y # us) = pre \<and>
          filter P vs = post \<and> P r" by simp
      then show ?thesis by blast
    qed
  qed
qed

lemma average_key_eq:
  "grades s \<noteq> [] \<Longrightarrow> \<not> float_overflow (exact_average s) \<Longrightarrow>
   average_key s = Inr (float_average s)"
  by (simp add: average_key_def py_truediv_average)

lemma py_max_key_first_max:
  assumes "xs \<noteq> []" and "\<forall>x\<in>set xs. key x = Inr (f x)"
  shows "\<exists>pre r post. xs = pre @ r # post \<and>
           (\<forall>s\<in>set pre. f s < f r) \<and> (\<forall>s\<in>set post. f s \<le> f r) \<and>
           py_max_key key xs = Inr r"
proof -
  from assms(1) obtain m ms where xs: "xs = m # ms" by (cases xs) auto
  with assms(2) have "key m = Inr (f m)" and "\<forall>x\<in>set ms. key x = Inr (f x)" by simp_all
  then show ?thesis
    using max_scan_first_max[of ms key f m] xs by (simp add: py_max_key_def)
qed

lemma find_top_performer_eq:
  assumes "\<exists>s\<in>set (students w). grades s \<noteq> []"
    and "averages_in_float_range (students w)"
  shows "\<exists>pre t post. students w = pre @ t # post \<and> grades t \<noteq> [] \<and>
           (\<forall>s\<in>set pre. grades s \<noteq> [] \<longrightarrow> float_average s < float_average t) \<and>
           (\<forall>s\<in>set post. grades s \<noteq> [] \<longrightarrow> float_average s \<le> float_average t) \<and>
           find_top_performer w =
             Inr (w\<lparr>stdout := stdout w @ [TopPerformer (name t) (float_average t)]\<rparr>)"
proof -
  let ?P = "\<lambda>s. grades s \<noteq> []"
  let ?swg = "filter ?P (students w)"
  have ne: "students w \<noteq> []" using assms(1) by auto
  have swg: "?swg \<noteq> []" using assms(1) by (simp add: filter_empty_conv)
  have keys: "\<forall>x\<in>set ?swg. average_key x = Inr (float_average x)"
    using assms(2) by (simp add: average_key_eq averages_in_float_range_def)
  from py_max_key_first_max[OF swg keys] obtain pre t post where
    d: "?swg = pre @ t # post" and lt: "\<forall>s\<in>set pre. float_average s < float_average t"
    and le: "\<forall>s\<in>set post. float_average s \<le> float_average t"
    and run: "py_max_key average_key ?swg = Inr t"
    by blast
  from filter_eq_appendD[OF d] obtain us vs where
    e: "students w = us @ t # vs" and us: "filter ?P us = pre" and vs: "filter ?P vs = post"
    and t: "grades t \<noteq> []"
    by blast
  have "t \<in> set (students w)" using e by simp
  then have tr: "\<not> float_overflow (exact_average t)"
    using assms(2) t by (simp add: averages_in_float_range_def)
  have "\<forall>s\<in>set us. grades s \<noteq> [] \<longrightarrow> float_average s < float_average t"
    using lt us by auto
  moreover have "\<forall>s\<in>set vs. grades s \<noteq> [] \<longrightarrow> float_average s \<le> float_average t"
    using le vs by auto
  moreover have "find_top_performer w =
             Inr (w\<lparr>stdout := stdout w @ [TopPerformer (name t) (float_average t)]\<rparr>)"
    using ne swg run t tr
    by (simp add: find_top_performer_def print_def py_truediv_average)
  ultimately show ?thesis using e t by blast
qed

text \<open>
  C4, as stated, fails: the keys compared are floats. A has 9999999 grades of 100 and one
  of 99, B has 10000000 grades of 100 and one of 99; the sum divided by the count is
  greater for B, but both quotients round to the same float, and the scan keeps A.
\<close>

theorem find_top_performer_float_tie_counterexample:
  "find_top_performer
     \<lparr>students = [\<lparr>name = ''A'', grades = replicate 9999999 100 @ [99]\<rparr>,
                  \<lparr>name = ''B'', grades = replicate 10000000 100 @ [99]\<rparr>],
      stdin = [], stdout = []\<rparr>
   = Inr \<lparr>students = [\<lparr>name = ''A'', grades = replicate 9999999 100 @ [99]\<rparr>,
                      \<lparr>name = ''B'', grades = replicate 10000000 100 @ [99]\<rparr>],
          stdin = [],
          stdout = [TopPerformer ''A'' (3518437205364763 / 35184372088832)]\<rparr> \<and>
   exact_average \<lparr>name = ''A'', grades = replicate 9999999 100 @ [99]\<rparr>
     < exact_average \<lparr>name = ''B'', grades = replicate 10000000 100 @ [99]\<rparr>"
proof -
  let ?A = "\<lparr>name = ''A'', grades = replicate 9999999 100 @ [99]\<rparr>"
  let ?B = "\<lparr>name = ''B'', grades = replicate 10000000 100 @ [99]\<rparr>"
  have ea: "exact_average ?A = 999999999 / 10000000"
    by (simp add: exact_average_def sum_list_replicate)
  have eb: "exact_average ?B = 1000000099 / 10000001"
    by (simp add: exact_average_def sum_list_replicate)
  have ra: "round_double (999999999 / 10000000) = 3518437205364763 / 35184372088832"
    by code_simp
  have rb: "round_double (1000000099 / 10000001) = 3518437205364763 / 35184372088832"
    by code_simp
  have fa: "float_average ?A = 3518437205364763 / 35184372088832"
    by (simp only: float_average_def ea ra)
  have fb: "float_average ?B = 3518437205364763 / 35184372088832"
    by (simp only: float_average_def eb rb)
  have na: "\<not> float_overflow (exact_average ?A)"
    unfolding ea by (rule small_no_overflow) simp
  have nb: "\<not> float_overflow (exact_average ?B)"
    unfolding eb by (rule small_no_overflow) simp
  have ka: "average_key ?A = Inr (3518437205364763 / 35184372088832)"
    using average_key_eq[OF _ na] fa by simp
  have kb: "average_key ?B = Inr (3518437205364763 / 35184372088832)"
    using average_key_eq[OF _ nb] fb by simp
  have pa: "py_truediv (py_sum (grades ?A)) (int (length (grades ?A)))
      = Inr (3518437205364763 / 35184372088832)"
    using ka by (simp only: average_key_def)
  have "py_max_key average_key [?A, ?B] = Inr ?A"
    by (simp add: py_max_key_def ka kb)
  then have "find_top_performer \<lparr>students = [?A, ?B], stdin = [], stdout = []\<rparr>
      = Inr \<lparr>students = [?A, ?B], stdin = [],
             stdout = [TopPerformer ''A'' (3518437205364763 / 35184372088832)]\<rparr>"
    using pa by (simp add: find_top_performer_def print_def)
  moreover have "exact_average ?A < exact_average ?B"
    unfolding ea eb by simp
  ultimately show ?thesis by simp
qed


text \<open>
  C4, amended: on an empty registry \<^verbatim>\<open>find_top_performer\<close> prints \<open>NoStudentsFound\<close>; on a
  registry in which no student has a grade it prints \<open>NoGradesAvailable\<close>; on a registry
  in which some student has a grade and every average is within the range of a float,
  it prints the name and the average of the first student in registry order whose float
  average (the float nearest to the sum divided by the count) is maximal among the
  students that have grades: every student with grades before it has a strictly smaller
  float average, every one after it a float average that is not greater. For A=[80]
  followed by B=[80] it is A.
\<close>

theorem find_top_performer_first_max:
  "(students w = [] \<longrightarrow>
      find_top_performer w = Inr (w\<lparr>stdout := stdout w @ [NoStudentsFound]\<rparr>)) \<and>
   (students w \<noteq> [] \<and> (\<forall>s\<in>set (students w). grades s = []) \<longrightarrow>
      find_top_performer w = Inr (w\<lparr>stdout := stdout w @ [NoGradesAvailable]\<rparr>)) \<and>
   ((\<exists>s\<in>set (students w). grades s \<noteq> []) \<and> averages_in_float_range (students w) \<longrightarrow>
      (\<exists>pre t post. students w = pre @ t # post \<and> grades t \<noteq> [] \<and>
         (\<forall>s\<in>set pre. grades s \<noteq> [] \<longrightarrow> float_average s < float_average t) \<and>
         (\<forall>s\<in>set post. grades s \<noteq> [] \<longrightarrow> float_average s \<le> float_average t) \<and>
         find_top_performer w =
           Inr (w\<lparr>stdout := stdout w @ [TopPerformer (name t) (float_average t)]\<rparr>)))"
proof (intro conjI impI)
  assume "students w = []"
  then show "find_top_performer w = Inr (w\<lparr>stdout := stdout w @ [NoStudentsFound]\<rparr>)"
    by (simp add: find_top_performer_def print_def)
next
  assume "students w \<noteq> [] \<and> (\<forall>s\<in>set (students w). grades s = [])"
  then show "find_top_performer w = Inr (w\<lparr>stdout := stdout w @ [NoGradesAvailable]\<rparr>)"
    by (simp add: find_top_performer_def print_def filter_empty_conv)
next
  assume "(\<exists>s\<in>set (students w). grades s \<noteq> []) \<and> averages_in_float_range (students w)"
  then show "\<exists>pre t post. students w = pre @ t # post \<and> grades t \<noteq> [] \<and>
         (\<forall>s\<in>set pre. grades s \<noteq> [] \<longrightarrow> float_average s < float_average t) \<and>
         (\<forall>s\<in>set post. grades s \<noteq> [] \<longrightarrow> float_average s \<le> float_average t) \<and>
         find_top_performer w =
           Inr (w\<lparr>stdout := stdout w @ [TopPerformer (name t) (float_average t)]\<rparr>)"
    by (blast intro: find_top_performer_eq)
qed

theorem find_top_performer_first_max_witness:
  "averages_in_float_range [\<lparr>name = ''A'', grades = [80]\<rparr>, \<lparr>name = ''B'', grades = [80]\<rparr>] \<and>
   find_top_performer \<lparr>students = [], stdin = [], stdout = []\<rparr>
     = Inr \<lparr>students = [], stdin = [], stdout = [NoStudentsFound]\<rparr> \<and>
   find_top_performer \<lparr>students = [\<lparr>name = ''C'', grades = []\<rparr>], stdin = [], stdout = []\<rparr>
     = Inr \<lparr>students = [\<lparr>name = ''C'', grades = []\<rparr>], stdin = [],
            stdout = [NoGradesAvailable]\<rparr> \<and>
   find_top_performer
     \<lparr>students = [\<lparr>name = ''A'', grades = [80]\<rparr>, \<lparr>name = ''B'', grades = [80]\<rparr>],
      stdin = [], stdout = []\<rparr>
     = Inr \<lparr>students = [\<lparr>name = ''A'', grades = [80]\<rparr>, \<lparr>name = ''B'', grades = [80]\<rparr>],
            stdin = [], stdout = [TopPerformer ''A'' 80]\<rparr>"
proof -
  let ?A = "\<lparr>name = ''A'', grades = [80]\<rparr>"
  let ?B = "\<lparr>name = ''B'', grades = [80]\<rparr>"
  let ?w = "\<lparr>students = [?A, ?B], stdin = [], stdout = []\<rparr>"
  have rd: "round_double 80 = 80" by code_simp
  have avg: "float_average ?A = 80" "float_average ?B = 80"
    by (simp_all add: float_average_def exact_average_def rd)
  have "grades_in_range [?A, ?B]" by (simp add: grades_in_range_def)
  then have r: "averages_in_float_range [?A, ?B]" by (rule grades_in_range_float_range)
  then have "(\<exists>s\<in>set (students ?w). grades s \<noteq> []) \<and> averages_in_float_range (students ?w)"
    by simp
  with find_top_performer_first_max[of ?w] obtain pre t post where
    d: "students ?w = pre @ t # post"
    and lt: "\<forall>s\<in>set pre. grades s \<noteq> [] \<longrightarrow> float_average s < float_average t"
    and run: "find_top_performer ?w =
           Inr (?w\<lparr>stdout := stdout ?w @ [TopPerformer (name t) (float_average t)]\<rparr>)"
    by blast
  have "t = ?A"
  proof (cases pre)
    case Nil
    with d show ?thesis by simp
  next
    case (Cons p ps)
    with d have p: "p = ?A" and e: "[?B] = ps @ t # post" by simp_all
    from e have "t = ?B" by (cases ps) simp_all
    with lt Cons p avg show ?thesis by simp
  qed
  with run avg have third: "find_top_performer ?w
     = Inr \<lparr>students = [?A, ?B], stdin = [], stdout = [TopPerformer ''A'' 80]\<rparr>"
    by simp
  have "find_top_performer \<lparr>students = [], stdin = [], stdout = []\<rparr>
     = Inr \<lparr>students = [], stdin = [], stdout = [NoStudentsFound]\<rparr>"
    using find_top_performer_first_max[of "\<lparr>students = [], stdin = [], stdout = []\<rparr>"]
    by simp
  moreover have
    "find_top_performer \<lparr>students = [\<lparr>name = ''C'', grades = []\<rparr>], stdin = [], stdout = []\<rparr>
     = Inr \<lparr>students = [\<lparr>name = ''C'', grades = []\<rparr>], stdin = [],
            stdout = [NoGradesAvailable]\<rparr>"
    using find_top_performer_first_max[of
        "\<lparr>students = [\<lparr>name = ''C'', grades = []\<rparr>], stdin = [], stdout = []\<rparr>"]
    by simp
  ultimately show ?thesis using third r by simp
qed

subsection \<open>The reporting operations only read\<close>

lemma show_report_frame:
  assumes "show_report fsum w = Inr w'"
  shows "students w' = students w \<and> stdin w' = stdin w"
  using assms
  by (auto simp: show_report_def print_def split: if_splits sum.splits prod.splits)

lemma find_top_performer_frame:
  assumes "find_top_performer w = Inr w'"
  shows "students w' = students w \<and> stdin w' = stdin w"
  using assms
  by (auto simp: find_top_performer_def print_def Let_def split: if_splits sum.splits)

text \<open>
  C10: \<^verbatim>\<open>show_report\<close> and \<^verbatim>\<open>find_top_performer\<close> only read the registry: after every
  call that returns, the registry is the registry before the call, with the same records,
  names and grades in the same order.
\<close>

theorem report_and_top_performer_read_only:
  "(show_report fsum w = Inr w' \<longrightarrow> students w' = students w) \<and>
   (find_top_performer w = Inr w'' \<longrightarrow> students w'' = students w)"
  using show_report_frame[of fsum w w'] find_top_performer_frame[of w w''] by blast


theorem report_and_top_performer_read_only_witness:
  "(\<exists>w'. show_report plain_float_sum
            \<lparr>students = [\<lparr>name = ''Ann'', grades = [70, 80, 90]\<rparr>, \<lparr>name = ''Bob'', grades = []\<rparr>],
             stdin = [''5''], stdout = []\<rparr> = Inr w' \<and>
         students w' = [\<lparr>name = ''Ann'', grades = [70, 80, 90]\<rparr>, \<lparr>name = ''Bob'', grades = []\<rparr>]) \<and>
   (\<exists>w'. find_top_performer
            \<lparr>students = [\<lparr>name = ''Ann'', grades = [70, 80, 90]\<rparr>, \<lparr>name = ''Bob'', grades = []\<rparr>],
             stdin = [''5''], stdout = []\<rparr> = Inr w' \<and>
         students w' = [\<lparr>name = ''Ann'', grades = [70, 80, 90]\<rparr>, \<lparr>name = ''Bob'', grades = []\<rparr>])"
proof -
  let ?sts = "[\<lparr>name = ''Ann'', grades = [70, 80, 90]\<rparr>, \<lparr>name = ''Bob'', grades = []\<rparr>]"
  let ?w = "\<lparr>students = ?sts, stdin = [''5''], stdout = []\<rparr>"
  have "grades_in_range ?sts" by (simp add: grades_in_range_def)
  then have r: "averages_in_float_range (students ?w)"
    by (simp add: grades_in_range_float_range)
  obtain w' where 1: "show_report plain_float_sum ?w = Inr w'"
    using show_report_eq[OF r] by blast
  have "\<exists>s\<in>set (students ?w). grades s \<noteq> []" by simp
  from find_top_performer_eq[OF this r] obtain w'' where 2: "find_top_performer ?w = Inr w''"
    by blast
  from report_and_top_performer_read_only[of plain_float_sum ?w w' w''] 1 2
  have "students w' = ?sts" "students w'' = ?sts" by simp_all
  with 1 2 show ?thesis by blast
qed

end
